theory Spec2Isabelle
  imports Main "HOL-Library.AList"
begin

section \<open>Strings\<close>

text \<open>
  A Go string is a sequence of bytes; it is modelled as a \<^typ>\<open>string\<close> (a list of
  8-bit characters).  The functions of this section are the ones of Go's standard
  package \<^verbatim>\<open>strings\<close> that the package \<^verbatim>\<open>pkg/mcp\<close> calls.  They are library code,
  modelled after their documented behaviour for a non-empty separator: \<^verbatim>\<open>Split\<close> cuts
  at the leftmost occurrence of the separator, continues behind it, and so cuts at
  non-overlapping occurrences; \<^verbatim>\<open>Count\<close> counts the same non-overlapping occurrences;
  \<^verbatim>\<open>Contains\<close> says whether there is an occurrence at all.
\<close>

definition HasPrefix :: "string \<Rightarrow> string \<Rightarrow> bool" where
  "HasPrefix s pre = (length pre \<le> length s \<and> take (length pre) s = pre)"

fun Contains :: "string \<Rightarrow> string \<Rightarrow> bool" where
  "Contains [] substr = (substr = [])"
| "Contains (c # cs) substr = (HasPrefix (c # cs) substr \<or> Contains cs substr)"

function Count :: "string \<Rightarrow> string \<Rightarrow> nat" where
  "Count [] sep = 0"
| "Count (c # cs) sep =
     (if sep \<noteq> [] \<and> HasPrefix (c # cs) sep
      then Suc (Count (drop (length sep) (c # cs)) sep)
      else Count cs sep)"
  by pat_completeness auto
termination
  by (relation "measure (\<lambda>(s, sep). length s)") auto

text \<open>
  \<open>genSplit sep cur s\<close> is the loop of \<^verbatim>\<open>strings.Split\<close> for a non-empty
  separator: \<open>cur\<close> holds the bytes of the piece being read.
\<close>

function genSplit :: "string \<Rightarrow> string \<Rightarrow> string \<Rightarrow> string list" where
  "genSplit sep cur [] = [cur]"
| "genSplit sep cur (c # cs) =
     (if sep \<noteq> [] \<and> HasPrefix (c # cs) sep
      then cur # genSplit sep [] (drop (length sep) (c # cs))
      else genSplit sep (cur @ [c]) cs)"
  by pat_completeness auto
termination
  by (relation "measure (\<lambda>(sep, cur, s). length s)") auto

definition Split :: "string \<Rightarrow> string \<Rightarrow> string list" where
  "Split s sep = genSplit sep [] s"

section \<open>Errors\<close>

text \<open>
  The three errors that \<^verbatim>\<open>CallTool\<close> builds with \<^verbatim>\<open>fmt.Errorf\<close>, one constructor
  for each, and the error that \<^verbatim>\<open>Close\<close> builds.  \<open>Error\<close> is the method
  \<^verbatim>\<open>Error()\<close>: the text of the error.  An error of an external collaborator
  (a session, the inference provider) is its text.
\<close>

datatype error =
    InvalidToolName string
  | ServerNotFound string
  | CallToolFailed string
  | CloseFailed "string list"
  | External string

fun joinSpace :: "string list \<Rightarrow> string" where
  "joinSpace [] = []"
| "joinSpace [x] = x"
| "joinSpace (x # y # ys) = x @ '' '' @ joinSpace (y # ys)"

fun Error :: "error \<Rightarrow> string" where
  "Error (InvalidToolName name) = ''invalid tool name format: '' @ name"
| "Error (ServerNotFound serverName) = ''server '' @ serverName @ '' not found''"
| "Error (CallToolFailed msg) = ''failed to call tool: '' @ msg"
| "Error (CloseFailed errs) =
     ''failed to close some connections: ['' @ joinSpace errs @ '']''"
| "Error (External msg) = msg"

section \<open>Qualified tool names\<close>

text \<open>
  \<^verbatim>\<open>fmt.Sprintf("%s__%s", serverName, tool.Name)\<close> in \<^verbatim>\<open>GetTools\<close>, and
  \<^verbatim>\<open>parseToolName\<close>.
\<close>

definition qualifiedName :: "string \<Rightarrow> string \<Rightarrow> string" where
  "qualifiedName serverName toolName = serverName @ ''__'' @ toolName"

definition parseToolName :: "string \<Rightarrow> error + string \<times> string" where
  "parseToolName name =
     (let parts = Split name ''__'' in
      if length parts \<noteq> 2 then Inl (InvalidToolName name)
      else Inr (parts ! 0, parts ! 1))"

section \<open>Provider configuration and sessions\<close>

text \<open>
  \<^verbatim>\<open>MCPServer\<close> and \<^verbatim>\<open>Config\<close> of the package \<^verbatim>\<open>pkg/mcp\<close>.  A Go map is an association
  list whose keys are distinct; its order is the order in which \<^verbatim>\<open>range\<close> visits it,
  which Go leaves open, so every statement below is for an arbitrary order.
\<close>

record MCPServer =
  Command :: string
  Args :: "string list"
  Env :: "(string \<times> string) list"
  Type :: string
  URL :: string
  Headers :: "(string \<times> string) list"

record Config =
  MCPServers :: "(string \<times> MCPServer) list"

text \<open>
  The transport that \<^verbatim>\<open>connectToServer\<close> builds: an event stream with an optional
  header-setting HTTP client, or a command with its environment overrides.
\<close>

datatype Transport =
    SSEClientTransport string "(string \<times> string) list option"
  | CommandTransport string "string list" "(string \<times> string) list"

text \<open>
  A session (\<^verbatim>\<open>*mcp.ClientSession\<close>) is an external collaborator.  It is modelled by
  what its three methods answer: \<open>sessListTools\<close> the tool list or an error text,
  \<open>sessCallTool\<close> a result or an error text for a local tool name and arguments, in a
  state \<open>'w\<close> of the providers that the call may change, and \<open>sessClose\<close> an error text
  or nothing.
\<close>

record mcpTool =
  Tool_Name :: string
  Tool_Description :: string

record ('a, 'v, 'w) ClientSession =
  sessListTools :: "string + mcpTool list"
  sessCallTool :: "string \<Rightarrow> 'a \<Rightarrow> 'w \<Rightarrow> (string + 'v) \<times> 'w"
  sessClose :: "string option"

record ('a, 'v, 'w) Client =
  sessions :: "(string \<times> ('a, 'v, 'w) ClientSession) list"

section \<open>The session registry\<close>

definition transportOf :: "MCPServer \<Rightarrow> Transport" where
  "transportOf server =
     (if Type server = ''sse''
      then SSEClientTransport (URL server)
             (if 0 < length (Headers server) then Some (Headers server) else None)
      else CommandTransport (Command server) (Args server) (Env server))"

text \<open>
  \<open>connect\<close> is \<^verbatim>\<open>mcpClient.Connect\<close> of the protocol library: for a transport it
  gives a session, or an error text.
\<close>

definition connectToServer ::
  "(Transport \<Rightarrow> string + ('a, 'v, 'w) ClientSession) \<Rightarrow> ('a, 'v, 'w) Client \<Rightarrow> string \<Rightarrow>
   MCPServer \<Rightarrow> ('a, 'v, 'w) Client \<times> error option" where
  "connectToServer connect c name server =
     (case connect (transportOf server) of
        Inl err \<Rightarrow> (c, Some (External (''failed to connect to server: '' @ err)))
      | Inr session \<Rightarrow> (c\<lparr>sessions := AList.update name session (sessions c)\<rparr>, None))"

text \<open>
  The loop of \<^verbatim>\<open>NewClient\<close>; \<open>log\<close> collects the lines written to standard error.
\<close>

fun connectAll ::
  "(Transport \<Rightarrow> string + ('a, 'v, 'w) ClientSession) \<Rightarrow> ('a, 'v, 'w) Client \<Rightarrow> string list \<Rightarrow>
   (string \<times> MCPServer) list \<Rightarrow> ('a, 'v, 'w) Client \<times> string list" where
  "connectAll connect c log [] = (c, log)"
| "connectAll connect c log ((name, server) # rest) =
     (case connectToServer connect c name server of
        (c', Some err) \<Rightarrow>
          connectAll connect c'
            (log @ [''Failed to connect to MCP server '' @ name @ '': '' @ Error err]) rest
      | (c', None) \<Rightarrow> connectAll connect c' log rest)"

definition NewClient ::
  "(Transport \<Rightarrow> string + ('a, 'v, 'w) ClientSession) \<Rightarrow> Config \<Rightarrow>
   ('a, 'v, 'w) Client \<times> error option \<times> string list" where
  "NewClient connect config =
     (case connectAll connect \<lparr>sessions = []\<rparr> [] (MCPServers config) of
        (c, log) \<Rightarrow> (c, None, log))"

text \<open>
  \<^verbatim>\<open>Close\<close>.  The first component of the result is the trace of the calls of
  \<^verbatim>\<open>session.Close()\<close>: the names of the sessions closed, in the order of the calls.
\<close>

fun closeAll ::
  "(string \<times> ('a, 'v, 'w) ClientSession) list \<Rightarrow> string list \<Rightarrow> string list \<Rightarrow>
   string list \<times> string list" where
  "closeAll [] closed errs = (closed, errs)"
| "closeAll ((name, session) # rest) closed errs =
     (case sessClose session of
        Some err \<Rightarrow> closeAll rest (closed @ [name]) (errs @ [err])
      | None \<Rightarrow> closeAll rest (closed @ [name]) errs)"

definition Close :: "('a, 'v, 'w) Client \<Rightarrow> string list \<times> error option" where
  "Close c =
     (case closeAll (sessions c) [] [] of
        (closed, errs) \<Rightarrow>
          (closed, if 0 < length errs then Some (CloseFailed errs) else None))"

text \<open>
  The providers whose session fails to close, in the order of the registry; they
  serve to state what \<^verbatim>\<open>Close\<close> returns.
\<close>

definition failedProviders :: "('a, 'v, 'w) Client \<Rightarrow> string list" where
  "failedProviders c = map fst (filter (\<lambda>x. sessClose (snd x) \<noteq> None) (sessions c))"

text \<open>The error texts with which they fail, in the same order.\<close>

definition closeErrors :: "('a, 'v, 'w) Client \<Rightarrow> string list" where
  "closeErrors c =
     map (\<lambda>x. the (sessClose (snd x))) (filter (\<lambda>x. sessClose (snd x) \<noteq> None) (sessions c))"

section \<open>The tool catalog and the call router\<close>

record apiTool =
  Tool_Type :: string
  Function_Name :: string
  Function_Description :: string

definition ToolTypeFunction :: string where
  "ToolTypeFunction = ''function''"

text \<open>
  \<^verbatim>\<open>GetTools\<close>; the parameter schema of a tool is forwarded as it is and left out.
  The error returned is always \<^verbatim>\<open>nil\<close>.
\<close>

fun listAll ::
  "(string \<times> ('a, 'v, 'w) ClientSession) list \<Rightarrow> apiTool list \<Rightarrow> apiTool list" where
  "listAll [] allTools = allTools"
| "listAll ((serverName, session) # rest) allTools =
     (case sessListTools session of
        Inl err \<Rightarrow> listAll rest allTools
      | Inr tools \<Rightarrow>
          listAll rest
            (allTools @
             map (\<lambda>tool. \<lparr>Tool_Type = ToolTypeFunction,
                          Function_Name = qualifiedName serverName (Tool_Name tool),
                          Function_Description = Tool_Description tool\<rparr>) tools))"

definition GetTools :: "('a, 'v, 'w) Client \<Rightarrow> apiTool list \<times> error option" where
  "GetTools c = (listAll (sessions c) [], None)"

text \<open>
  A value of type \<^verbatim>\<open>interface{}\<close>, by the cases of the type switch of
  \<^verbatim>\<open>formatToolResult\<close>: a string, a byte slice, or anything else.
\<close>

datatype 'v goValue = GoString string | GoBytes string | GoOther 'v

definition CallTool ::
  "('a, 'v, 'w) Client \<Rightarrow> string \<Rightarrow> 'a \<Rightarrow> 'w \<Rightarrow> (error + 'v goValue) \<times> 'w" where
  "CallTool c name args w =
     (case parseToolName name of
        Inl err \<Rightarrow> (Inl err, w)
      | Inr (serverName, toolName) \<Rightarrow>
          (case map_of (sessions c) serverName of
             None \<Rightarrow> (Inl (ServerNotFound serverName), w)
           | Some session \<Rightarrow>
               (case sessCallTool session toolName args w of
                  (Inl err, w') \<Rightarrow> (Inl (CallToolFailed err), w')
                | (Inr result, w') \<Rightarrow> (Inr (GoOther result), w'))))"

section \<open>Formatting of results\<close>

text \<open>
  \<^verbatim>\<open>formatToolResult\<close> and \<^verbatim>\<open>truncateString\<close> of \<^verbatim>\<open>mcp_agent/common.go\<close>.
  \<open>marshalIndent\<close> is \<^verbatim>\<open>json.MarshalIndent(v, "", "  ")\<close>, an error text or the
  document, and \<open>sprintv\<close> is \<^verbatim>\<open>fmt.Sprintf("%v", v)\<close>; both belong to Go's library
  and are parameters.
\<close>

definition formatToolResult ::
  "('v \<Rightarrow> string + string) \<Rightarrow> ('v \<Rightarrow> string) \<Rightarrow> 'v goValue \<Rightarrow> string" where
  "formatToolResult marshalIndent sprintv result =
     (case result of
        GoString v \<Rightarrow> v
      | GoBytes v \<Rightarrow> v
      | GoOther v \<Rightarrow>
          (case marshalIndent v of
             Inl err \<Rightarrow> sprintv v
           | Inr data \<Rightarrow> data))"

definition truncateString :: "string \<Rightarrow> nat \<Rightarrow> string" where
  "truncateString s maxLen =
     (if length s \<le> maxLen then s else take maxLen s @ ''... (truncated)'')"

section \<open>Messages and the inference provider\<close>

text \<open>
  The fields of \<^verbatim>\<open>api.ToolCall\<close>, \<^verbatim>\<open>api.Message\<close>, \<^verbatim>\<open>api.ChatRequest\<close> and
  \<^verbatim>\<open>api.ChatResponse\<close> that the agent reads or writes.  The arguments of a call are
  an opaque value of type \<open>'a\<close>.
\<close>

record 'a ToolCall =
  ToolCall_Name :: string
  ToolCall_Arguments :: 'a

record 'a Message =
  Role :: string
  Content :: string
  ToolCalls :: "'a ToolCall list"
  ToolName :: string

definition emptyMessage :: "'a Message" where
  "emptyMessage = \<lparr>Role = [], Content = [], ToolCalls = [], ToolName = []\<rparr>"

record 'a ChatRequest =
  Model :: string
  Stream :: bool
  Messages :: "'a Message list"
  Tools :: "apiTool list"

record 'a ChatResponse =
  Message :: "'a Message"
  Done :: bool

text \<open>
  The agent.  \<open>Chat\<close> is the method \<^verbatim>\<open>Chat\<close> of the inference client: for a request
  it gives the responses handed to the callback, in order, and then an error text
  or nothing.  Logging (the field \<^verbatim>\<open>verbose\<close>) and the input lock are left out.
\<close>

record ('a, 'v, 'w) Agent =
  Chat :: "'a ChatRequest \<Rightarrow> 'a ChatResponse list \<times> string option"
  mcpClient :: "('a, 'v, 'w) Client"
  model :: string
  stream :: bool

text \<open>What the agent prints on standard output, one constructor for each format.\<close>

datatype 'a printed =
    PrintBanner nat
  | PrintOllamaPrefix
  | PrintFragment string
  | PrintEndOfStream
  | PrintOllama string
  | PrintTool string 'a
  | PrintError string
  | PrintResult string

text \<open>\<^verbatim>\<open>runInference\<close>: the callback keeps the message of the last response.\<close>

definition runInference ::
  "('a, 'v, 'w) Agent \<Rightarrow> 'a Message list \<Rightarrow> apiTool list \<Rightarrow> error + 'a Message" where
  "runInference a conversation tools =
     (let req = \<lparr>Model = model a, Stream = False, Messages = conversation, Tools = tools\<rparr>
      in case Chat a req of
           (resps, Some err) \<Rightarrow> Inl (External err)
         | (resps, None) \<Rightarrow> Inr (foldl (\<lambda>responseMessage resp. Message resp) emptyMessage resps))"

text \<open>
  \<^verbatim>\<open>runInferenceStreaming\<close>.  The state of the callback \<^verbatim>\<open>respFunc\<close> is the
  variables it captures, \<^verbatim>\<open>finalMessage\<close> and \<^verbatim>\<open>contentBuilder\<close>, and the output.
\<close>

definition respFunc ::
  "'a Message \<times> string \<times> 'a printed list \<Rightarrow> 'a ChatResponse \<Rightarrow>
   'a Message \<times> string \<times> 'a printed list" where
  "respFunc state resp =
     (case state of (finalMessage, contentBuilder, out) \<Rightarrow>
        let (contentBuilder1, out1) =
              (if Content (Message resp) \<noteq> []
               then (contentBuilder @ Content (Message resp),
                     out @ [PrintFragment (Content (Message resp))])
               else (contentBuilder, out));
            (finalMessage1, out2) =
              (if Done resp
               then ((Message resp)\<lparr>Content := contentBuilder1\<rparr>, out1 @ [PrintEndOfStream])
               else (finalMessage, out1));
            finalMessage2 =
              (if 0 < length (ToolCalls (Message resp))
               then finalMessage1\<lparr>ToolCalls :=
                      ToolCalls finalMessage1 @ ToolCalls (Message resp)\<rparr>
               else finalMessage1)
        in (finalMessage2, contentBuilder1, out2))"

definition runInferenceStreaming ::
  "('a, 'v, 'w) Agent \<Rightarrow> 'a Message list \<Rightarrow> apiTool list \<Rightarrow>
   (error + 'a Message) \<times> 'a printed list" where
  "runInferenceStreaming a conversation tools =
     (let req = \<lparr>Model = model a, Stream = True, Messages = conversation, Tools = tools\<rparr>
      in case Chat a req of (resps, err) \<Rightarrow>
           (case foldl respFunc (emptyMessage, [], []) resps of
              (finalMessage, contentBuilder, out) \<Rightarrow>
                (case err of
                   Some e \<Rightarrow> (Inl (External (''chat streaming error: '' @ e)), out)
                 | None \<Rightarrow> (Inr finalMessage, out))))"

section \<open>The conversation loop\<close>

text \<open>
  The variables of \<^verbatim>\<open>Agent.Run\<close> that change: the conversation, the output and the
  state of the providers.
\<close>

record ('a, 'w) runState =
  conversation :: "'a Message list"
  out :: "'a printed list"
  world :: 'w

text \<open>The body of the loop over the tool calls of one message.\<close>

definition execToolCall ::
  "('v \<Rightarrow> string + string) \<Rightarrow> ('v \<Rightarrow> string) \<Rightarrow> ('a, 'v, 'w) Agent \<Rightarrow> ('a, 'w) runState \<Rightarrow>
   'a ToolCall \<Rightarrow> ('a, 'w) runState" where
  "execToolCall marshalIndent sprintv a st toolCall =
     (let out1 = out st @ [PrintTool (ToolCall_Name toolCall) (ToolCall_Arguments toolCall)]
      in case CallTool (mcpClient a) (ToolCall_Name toolCall) (ToolCall_Arguments toolCall)
                (world st) of
           (result, w') \<Rightarrow>
             let (toolResult, out2) =
                   (case result of
                      Inl err \<Rightarrow> (''Error: '' @ Error err, out1 @ [PrintError (Error err)])
                    | Inr v \<Rightarrow>
                        (formatToolResult marshalIndent sprintv v,
                         out1 @ [PrintResult
                           (truncateString (formatToolResult marshalIndent sprintv v) 500)]))
             in \<lparr>conversation = conversation st @
                    [\<lparr>Role = ''tool'', Content = toolResult, ToolCalls = [],
                      ToolName = ToolCall_Name toolCall\<rparr>],
                  out = out2, world = w'\<rparr>)"

text \<open>
  The start of the inner loop: the text of the message is shown unless it was
  streamed already.
\<close>

definition showContent ::
  "('a, 'v, 'w) Agent \<Rightarrow> ('a, 'w) runState \<Rightarrow> 'a Message \<Rightarrow> ('a, 'w) runState" where
  "showContent a st message =
     (if \<not> stream a \<and> Content message \<noteq> []
      then st\<lparr>out := out st @ [PrintOllama (Content message)]\<rparr>
      else st)"

definition execToolCalls ::
  "('v \<Rightarrow> string + string) \<Rightarrow> ('v \<Rightarrow> string) \<Rightarrow> ('a, 'v, 'w) Agent \<Rightarrow> ('a, 'w) runState \<Rightarrow>
   'a Message \<Rightarrow> ('a, 'w) runState" where
  "execToolCalls marshalIndent sprintv a st message =
     foldl (execToolCall marshalIndent sprintv a) (showContent a st message)
       (ToolCalls message)"

text \<open>
  The inner loop of \<^verbatim>\<open>Run\<close>, entered with the message just appended to the
  conversation.  It may run forever; its result, when there is one, is the state and
  the error that \<^verbatim>\<open>Run\<close> returns at once, if any.
\<close>

partial_function (option) toolLoop ::
  "('v \<Rightarrow> string + string) \<Rightarrow> ('v \<Rightarrow> string) \<Rightarrow> ('a, 'v, 'w) Agent \<Rightarrow> apiTool list \<Rightarrow>
   ('a, 'w) runState \<Rightarrow> 'a Message \<Rightarrow> (('a, 'w) runState \<times> error option) option" where
  "toolLoop marshalIndent sprintv a tools st message =
     (if \<not> 0 < length (ToolCalls message) then Some (showContent a st message, None)
      else case runInference a
                  (conversation (execToolCalls marshalIndent sprintv a st message)) tools of
             Inl err \<Rightarrow> Some (execToolCalls marshalIndent sprintv a st message, Some err)
           | Inr message' \<Rightarrow>
               toolLoop marshalIndent sprintv a tools
                 ((execToolCalls marshalIndent sprintv a st message)
                    \<lparr>conversation :=
                       conversation (execToolCalls marshalIndent sprintv a st message) @
                       [message']\<rparr>)
                 message')"

declare toolLoop.simps [code]

text \<open>The first inference of a turn, streaming or not.\<close>

definition firstInference ::
  "('a, 'v, 'w) Agent \<Rightarrow> apiTool list \<Rightarrow> ('a, 'w) runState \<Rightarrow>
   (error + 'a Message) \<times> ('a, 'w) runState" where
  "firstInference a tools st =
     (if stream a
      then (case runInferenceStreaming a (conversation st) tools of
              (r, printed) \<Rightarrow> (r, st\<lparr>out := out st @ [PrintOllamaPrefix] @ printed\<rparr>))
      else (runInference a (conversation st) tools, st))"

text \<open>
  The outer loop of \<^verbatim>\<open>Run\<close>.  The list holds the texts that \<^verbatim>\<open>survey.AskOne\<close>
  returns, one for each prompt; after the last one \<^verbatim>\<open>AskOne\<close> fails, the loop is
  left and \<^verbatim>\<open>Run\<close> returns \<^verbatim>\<open>nil\<close>.
\<close>

fun chatLoop ::
  "('v \<Rightarrow> string + string) \<Rightarrow> ('v \<Rightarrow> string) \<Rightarrow> ('a, 'v, 'w) Agent \<Rightarrow> apiTool list \<Rightarrow>
   ('a, 'w) runState \<Rightarrow> string list \<Rightarrow> (('a, 'w) runState \<times> error option) option" where
  "chatLoop marshalIndent sprintv a tools st [] = Some (st, None)"
| "chatLoop marshalIndent sprintv a tools st (userInput # inputs) =
     (if userInput = [] then chatLoop marshalIndent sprintv a tools st inputs
      else case firstInference a tools
                  (st\<lparr>conversation := conversation st @
                        [\<lparr>Role = ''user'', Content = userInput, ToolCalls = [],
                          ToolName = []\<rparr>]\<rparr>) of
             (Inl err, st1) \<Rightarrow> Some (st1, Some err)
           | (Inr message, st1) \<Rightarrow>
               (case toolLoop marshalIndent sprintv a tools
                       (st1\<lparr>conversation := conversation st1 @ [message]\<rparr>) message of
                  None \<Rightarrow> None
                | Some (st2, Some err) \<Rightarrow> Some (st2, Some err)
                | Some (st2, None) \<Rightarrow> chatLoop marshalIndent sprintv a tools st2 inputs))"

definition Run ::
  "('v \<Rightarrow> string + string) \<Rightarrow> ('v \<Rightarrow> string) \<Rightarrow> ('a, 'v, 'w) Agent \<Rightarrow> string list \<Rightarrow> 'w \<Rightarrow>
   (('a, 'w) runState \<times> error option) option" where
  "Run marshalIndent sprintv a inputs w =
     (case GetTools (mcpClient a) of
        (tools, Some err) \<Rightarrow>
          Some (\<lparr>conversation = [], out = [], world = w\<rparr>,
                Some (External (''failed to get MCP tools: '' @ Error err)))
      | (tools, None) \<Rightarrow>
          chatLoop marshalIndent sprintv a tools
            \<lparr>conversation = [], out = [PrintBanner (length tools)], world = w\<rparr> inputs)"

section \<open>Correlation of tool calls and tool messages\<close>

text \<open>
  \<open>scan conv pending\<close> reads a conversation from its start; \<open>pending\<close> holds the calls
  of the last assistant message that have no tool message yet.  A tool message must
  answer the first pending call, by its tool name; any other message must find no
  call pending.  The result is the list of calls pending at the end, or \<open>None\<close> when
  a message breaks the rule.
\<close>

fun scan :: "'a Message list \<Rightarrow> 'a ToolCall list \<Rightarrow> 'a ToolCall list option" where
  "scan [] pending = Some pending"
| "scan (m # ms) pending =
     (if Role m = ''tool''
      then (case pending of
              [] \<Rightarrow> None
            | toolCall # rest \<Rightarrow>
                if ToolName m = ToolCall_Name toolCall then scan ms rest else None)
      else if pending \<noteq> [] then None
      else scan ms (if Role m = ''assistant'' then ToolCalls m else []))"

definition correlated :: "'a Message list \<Rightarrow> bool" where
  "correlated conv = (scan conv [] = Some [])"

definition toolMessages :: "'a Message list \<Rightarrow> nat" where
  "toolMessages conv = length (filter (\<lambda>m. Role m = ''tool'') conv)"

definition assistantToolCalls :: "'a Message list \<Rightarrow> nat" where
  "assistantToolCalls conv =
     sum_list (map (\<lambda>m. length (ToolCalls m)) (filter (\<lambda>m. Role m = ''assistant'') conv))"

text \<open>
  The contract of the inference provider, a condition on \<open>Chat\<close> alone: the message
  of every response it hands to the callback has the role \<^verbatim>\<open>assistant\<close>, and an
  exchange in streaming mode that ends without error has delivered a completing
  response.
\<close>

definition providerContract :: "('a, 'v, 'w) Agent \<Rightarrow> bool" where
  "providerContract a =
     (\<forall>req resps.
        Chat a req = (resps, None) \<longrightarrow>
        (\<forall>resp\<in>set resps. Role (Message resp) = ''assistant'') \<and>
        (Stream req \<longrightarrow> (\<exists>resp\<in>set resps. Done resp)))"

text \<open>
  \<open>rounds n\<close> is the state and the message after \<open>n\<close> further rounds of the inner
  loop, each one executing the tool calls of a message and receiving the next
  message; \<open>None\<close> when there are fewer rounds.
\<close>

fun rounds ::
  "nat \<Rightarrow> ('v \<Rightarrow> string + string) \<Rightarrow> ('v \<Rightarrow> string) \<Rightarrow> ('a, 'v, 'w) Agent \<Rightarrow> apiTool list \<Rightarrow>
   ('a, 'w) runState \<Rightarrow> 'a Message \<Rightarrow> (('a, 'w) runState \<times> 'a Message) option" where
  "rounds 0 marshalIndent sprintv a tools st message = Some (st, message)"
| "rounds (Suc n) marshalIndent sprintv a tools st message =
     (if \<not> 0 < length (ToolCalls message) then None
      else case runInference a
                  (conversation (execToolCalls marshalIndent sprintv a st message)) tools of
             Inl err \<Rightarrow> None
           | Inr message' \<Rightarrow>
               rounds n marshalIndent sprintv a tools
                 ((execToolCalls marshalIndent sprintv a st message)
                    \<lparr>conversation :=
                       conversation (execToolCalls marshalIndent sprintv a st message) @
                       [message']\<rparr>)
                 message')"

section \<open>A scenario\<close>

text \<open>
  Concrete collaborators, on which the theorems below are instantiated: a provider
  \<^verbatim>\<open>fs\<close> that binds and lists files, a provider \<^verbatim>\<open>web\<close> whose bind fails, a
  serializer that fails on the empty document, and an inference provider that first
  asks for two tools, one of them at the unknown provider \<^verbatim>\<open>ghost\<close>, and then
  answers in plain text.  The state of the providers counts the calls they served.
\<close>

definition fsCallTool :: "string \<Rightarrow> unit \<Rightarrow> nat \<Rightarrow> (string + string) \<times> nat" where
  "fsCallTool toolName args w =
     (if toolName = ''list_files'' then (Inr ''a.txt b.txt'', Suc w)
      else (Inl (''unknown tool '' @ toolName), Suc w))"

definition fsSession :: "(unit, string, nat) ClientSession" where
  "fsSession =
     \<lparr>sessListTools = Inr [\<lparr>Tool_Name = ''list_files'', Tool_Description = ''List files''\<rparr>],
      sessCallTool = fsCallTool, sessClose = None\<rparr>"

definition brokenSession :: "(unit, string, nat) ClientSession" where
  "brokenSession =
     \<lparr>sessListTools = Inl ''EOF'', sessCallTool = fsCallTool, sessClose = Some ''EOF''\<rparr>"

definition exampleConnect :: "Transport \<Rightarrow> string + (unit, string, nat) ClientSession" where
  "exampleConnect transport =
     (case transport of
        SSEClientTransport url headers \<Rightarrow> Inl ''connection refused''
      | CommandTransport command args env \<Rightarrow> Inr fsSession)"

definition exampleConfig :: Config where
  "exampleConfig =
     \<lparr>MCPServers =
        [(''web'', \<lparr>Command = [], Args = [], Env = [], Type = ''sse'',
                   URL = ''http://localhost:8080/sse'', Headers = []\<rparr>),
         (''fs'', \<lparr>Command = ''fs-server'', Args = [], Env = [], Type = [],
                  URL = [], Headers = []\<rparr>)]\<rparr>"

definition exampleClient :: "(unit, string, nat) Client" where
  "exampleClient = \<lparr>sessions = [(''fs'', fsSession)]\<rparr>"

definition timeoutSession :: "(unit, string, nat) ClientSession" where
  "timeoutSession =
     \<lparr>sessListTools = Inl ''timeout'', sessCallTool = fsCallTool,
      sessClose = Some ''timeout''\<rparr>"

definition twoSessions :: "(unit, string, nat) Client" where
  "twoSessions = \<lparr>sessions = [(''fs'', fsSession), (''web'', brokenSession)]\<rparr>"

definition swappedSessions :: "(unit, string, nat) Client" where
  "swappedSessions = \<lparr>sessions = [(''fs'', brokenSession), (''web'', fsSession)]\<rparr>"

definition brokenSessions :: "(unit, string, nat) Client" where
  "brokenSessions = \<lparr>sessions = [(''fs'', brokenSession), (''web'', timeoutSession)]\<rparr>"

definition exampleMarshalIndent :: "string \<Rightarrow> string + string" where
  "exampleMarshalIndent v =
     (if v = [] then Inl ''json: unsupported value'' else Inr (''[ '' @ v @ '' ]''))"

definition exampleSprintv :: "string \<Rightarrow> string" where
  "exampleSprintv v = ''&{'' @ v @ ''}''"

definition ghostCall :: "unit ToolCall" where
  "ghostCall = \<lparr>ToolCall_Name = ''ghost__read'', ToolCall_Arguments = ()\<rparr>"

definition listCall :: "unit ToolCall" where
  "listCall = \<lparr>ToolCall_Name = ''fs__list_files'', ToolCall_Arguments = ()\<rparr>"

definition exampleChat :: "unit ChatRequest \<Rightarrow> unit ChatResponse list \<times> string option" where
  "exampleChat req =
     (if Stream req
      then ([\<lparr>Message = \<lparr>Role = ''assistant'', Content = ''Let me '', ToolCalls = [ghostCall],
                           ToolName = []\<rparr>, Done = False\<rparr>,
             \<lparr>Message = \<lparr>Role = ''assistant'', Content = ''look.'', ToolCalls = [listCall],
                           ToolName = []\<rparr>, Done = True\<rparr>], None)
      else if length (Messages req) = 1
      then ([\<lparr>Message = \<lparr>Role = ''assistant'', Content = [],
                           ToolCalls = [ghostCall, listCall], ToolName = []\<rparr>,
              Done = True\<rparr>], None)
      else ([\<lparr>Message = \<lparr>Role = ''assistant'', Content = ''Found 2 files: a.txt, b.txt'',
                           ToolCalls = [], ToolName = []\<rparr>, Done = True\<rparr>], None))"

definition exampleAgent :: "(unit, string, nat) Agent" where
  "exampleAgent =
     \<lparr>Chat = exampleChat, mcpClient = exampleClient, model = ''qwen3:1.7b'', stream = False\<rparr>"

definition streamingAgent :: "(unit, string, nat) Agent" where
  "streamingAgent =
     \<lparr>Chat = exampleChat, mcpClient = exampleClient, model = ''qwen3:1.7b'', stream = True\<rparr>"

text \<open>
  Two inference providers that break the contract: one whose stream ends, without
  error, before any completing response, and one that answers with the role
  \<^verbatim>\<open>tool\<close>; and the conversations that \<^verbatim>\<open>Run\<close> ends with on them.
\<close>

definition cutChat :: "unit ChatRequest \<Rightarrow> unit ChatResponse list \<times> string option" where
  "cutChat req =
     (if Stream req
      then ([\<lparr>Message = \<lparr>Role = ''assistant'', Content = ''Let me look.'',
                           ToolCalls = [listCall], ToolName = []\<rparr>, Done = False\<rparr>], None)
      else ([\<lparr>Message = \<lparr>Role = ''assistant'', Content = ''Found 2 files: a.txt, b.txt'',
                           ToolCalls = [], ToolName = []\<rparr>, Done = True\<rparr>], None))"

definition cutAgent :: "(unit, string, nat) Agent" where
  "cutAgent =
     \<lparr>Chat = cutChat, mcpClient = exampleClient, model = ''qwen3:1.7b'', stream = True\<rparr>"

definition cutConversation :: "unit Message list" where
  "cutConversation =
     [\<lparr>Role = ''user'', Content = ''list files'', ToolCalls = [], ToolName = []\<rparr>,
      \<lparr>Role = [], Content = [], ToolCalls = [listCall], ToolName = []\<rparr>,
      \<lparr>Role = ''tool'', Content = ''[ a.txt b.txt ]'', ToolCalls = [],
        ToolName = ''fs__list_files''\<rparr>,
      \<lparr>Role = ''assistant'', Content = ''Found 2 files: a.txt, b.txt'', ToolCalls = [],
        ToolName = []\<rparr>]"

definition toolRoleChat :: "unit ChatRequest \<Rightarrow> unit ChatResponse list \<times> string option" where
  "toolRoleChat req =
     ([\<lparr>Message = \<lparr>Role = ''tool'', Content = ''a.txt b.txt'', ToolCalls = [],
                     ToolName = []\<rparr>, Done = True\<rparr>], None)"

definition toolRoleAgent :: "(unit, string, nat) Agent" where
  "toolRoleAgent =
     \<lparr>Chat = toolRoleChat, mcpClient = exampleClient, model = ''qwen3:1.7b'',
      stream = False\<rparr>"

definition toolRoleConversation :: "unit Message list" where
  "toolRoleConversation =
     [\<lparr>Role = ''user'', Content = ''list files'', ToolCalls = [], ToolName = []\<rparr>,
      \<lparr>Role = ''tool'', Content = ''a.txt b.txt'', ToolCalls = [], ToolName = []\<rparr>]"

text \<open>The conversation and the output of that scenario.\<close>

definition exampleConversation :: "unit Message list" where
  "exampleConversation =
     [\<lparr>Role = ''user'', Content = ''list files'', ToolCalls = [], ToolName = []\<rparr>,
      \<lparr>Role = ''assistant'', Content = [], ToolCalls = [ghostCall, listCall], ToolName = []\<rparr>,
      \<lparr>Role = ''tool'', Content = ''Error: server ghost not found'', ToolCalls = [],
        ToolName = ''ghost__read''\<rparr>,
      \<lparr>Role = ''tool'', Content = ''[ a.txt b.txt ]'', ToolCalls = [],
        ToolName = ''fs__list_files''\<rparr>,
      \<lparr>Role = ''assistant'', Content = ''Found 2 files: a.txt, b.txt'', ToolCalls = [],
        ToolName = []\<rparr>]"

definition exampleOut :: "unit printed list" where
  "exampleOut =
     [PrintBanner 1, PrintTool ''ghost__read'' (), PrintError ''server ghost not found'',
      PrintTool ''fs__list_files'' (), PrintResult ''[ a.txt b.txt ]'',
      PrintOllama ''Found 2 files: a.txt, b.txt'']"

section \<open>Facts about splitting\<close>

lemma genSplit_length: "length (genSplit sep cur s) = Suc (Count s sep)"
  by (induction sep cur s rule: genSplit.induct) auto

lemma Split_length: "length (Split s sep) = Suc (Count s sep)"
  by (simp add: Split_def genSplit_length)

lemma genSplit_no_sep:
  "\<not> Contains s ''__'' \<Longrightarrow> genSplit ''__'' cur s = [cur @ s]"
  by (induction s arbitrary: cur) auto

lemma Count_no_sep: "\<not> Contains s sep \<Longrightarrow> Count s sep = 0"
  by (induction s) auto

lemma HasPrefix_sep_Cons:
  "HasPrefix (c # cs) ''__'' = (c = CHR ''_'' \<and> (\<exists>ds. cs = CHR ''_'' # ds))"
  by (cases cs) (auto simp add: HasPrefix_def)

lemma genSplit_qualified:
  "\<not> Contains p ''__'' \<Longrightarrow> p = [] \<or> last p \<noteq> CHR ''_'' \<Longrightarrow>
   genSplit ''__'' cur (p @ ''__'' @ t) = (cur @ p) # genSplit ''__'' [] t"
proof (induction p arbitrary: cur)
  case Nil
  then show ?case by (simp add: HasPrefix_def)
next
  case (Cons c p)
  have notpre: "\<not> HasPrefix (c # p @ ''__'' @ t) ''__''"
  proof (cases p)
    case Nil
    with Cons.prems show ?thesis by (simp add: HasPrefix_sep_Cons)
  next
    case (Cons d ds)
    with Cons.prems show ?thesis by (auto simp add: HasPrefix_sep_Cons)
  qed
  from Cons.prems have "\<not> Contains p ''__''" by simp
  moreover from Cons.prems have "p = [] \<or> last p \<noteq> CHR ''_''" by (auto split: if_splits)
  ultimately have "genSplit ''__'' (cur @ [c]) (p @ ''__'' @ t)
      = ((cur @ [c]) @ p) # genSplit ''__'' [] t"
    by (rule Cons.IH)
  with notpre show ?case by simp
qed

lemma Count_zero_iff: "sep \<noteq> [] \<Longrightarrow> (Count s sep = 0) = (\<not> Contains s sep)"
  by (induction s) auto

section \<open>The name parser\<close>

text \<open>
  Claim C1, as the specification states it: for a provider name and a local tool name
  that are non-empty and contain no separator, parsing the qualified name gives the two
  names back.  It fails for a provider name that ends in an underscore: the separator is
  then found one byte early, and \<^verbatim>\<open>a_\<close> with \<^verbatim>\<open>b\<close> comes back as \<^verbatim>\<open>a\<close> with \<^verbatim>\<open>_b\<close>.
\<close>

theorem C1_roundtrip_counterexample:
  "''a_'' \<noteq> [] \<and> \<not> Contains ''a_'' ''__'' \<and> ''b'' \<noteq> [] \<and> \<not> Contains ''b'' ''__'' \<and>
   parseToolName (qualifiedName ''a_'' ''b'') = Inr (''a'', ''_b'') \<and>
   parseToolName (qualifiedName ''a_'' ''b'') \<noteq> Inr (''a_'', ''b'')"
  by (simp add: parseToolName_def qualifiedName_def Split_def HasPrefix_def)

text \<open>
  Claim C1, amended: for a provider name that is non-empty, contains no separator and
  does not end in an underscore, and a local tool name that is non-empty and contains
  no separator, parsing the qualified name built in \<^verbatim>\<open>GetTools\<close> gives exactly the
  provider name and the local tool name.
\<close>

theorem C1_roundtrip:
  assumes "p \<noteq> []" and "\<not> Contains p ''__''" and "last p \<noteq> CHR ''_''"
    and "t \<noteq> []" and "\<not> Contains t ''__''"
  shows "parseToolName (qualifiedName p t) = Inr (p, t)"
proof -
  have "genSplit ''__'' [] (p @ ''__'' @ t) = ([] @ p) # genSplit ''__'' [] t"
    using assms(2,3) by (intro genSplit_qualified) simp_all
  also have "genSplit ''__'' [] t = [[] @ t]"
    using assms(5) by (rule genSplit_no_sep)
  finally have "Split (qualifiedName p t) ''__'' = [p, t]"
    by (simp add: Split_def qualifiedName_def)
  then show ?thesis by (simp add: parseToolName_def)
qed

theorem C1_roundtrip_witness:
  "''fs'' \<noteq> [] \<and> \<not> Contains ''fs'' ''__'' \<and> last ''fs'' \<noteq> CHR ''_'' \<and>
   ''list_files'' \<noteq> [] \<and> \<not> Contains ''list_files'' ''__'' \<and>
   parseToolName (qualifiedName ''fs'' ''list_files'') = Inr (''fs'', ''list_files'')"
proof -
  have h: "''fs'' \<noteq> []" "\<not> Contains ''fs'' ''__''" "last ''fs'' \<noteq> CHR ''_''"
    "''list_files'' \<noteq> []" "\<not> Contains ''list_files'' ''__''"
    by (simp_all add: HasPrefix_def)
  from C1_roundtrip [OF h] h show ?thesis by simp
qed

text \<open>
  Claim C2: \<^verbatim>\<open>parseToolName\<close> returns an error exactly when the name holds no
  occurrence of the separator or more than one, and the error is the naming error
  \<^verbatim>\<open>invalid tool name format\<close> for that name.  Occurrences are counted as
  \<^verbatim>\<open>strings.Count\<close> counts them, without overlap.  \<^verbatim>\<open>tool\<close> and
  \<^verbatim>\<open>server__tool__extra\<close> are rejected, \<^verbatim>\<open>server__tool\<close> is accepted.
\<close>

theorem C2_rejection:
  "((\<exists>e. parseToolName name = Inl e) = (Count name ''__'' = 0 \<or> 1 < Count name ''__'')) \<and>
   (\<forall>e. parseToolName name = Inl e \<longrightarrow>
      e = InvalidToolName name \<and> Error e = ''invalid tool name format: '' @ name) \<and>
   parseToolName ''tool'' = Inl (InvalidToolName ''tool'') \<and>
   parseToolName ''server__tool__extra'' = Inl (InvalidToolName ''server__tool__extra'') \<and>
   parseToolName ''server__tool'' = Inr (''server'', ''tool'')"
proof -
  have "(\<exists>e. parseToolName name = Inl e) = (Count name ''__'' = 0 \<or> 1 < Count name ''__'')"
    by (auto simp add: parseToolName_def Split_length Let_def)
  moreover have "\<forall>e. parseToolName name = Inl e \<longrightarrow>
      e = InvalidToolName name \<and> Error e = ''invalid tool name format: '' @ name"
    by (auto simp add: parseToolName_def Let_def split: if_splits)
  moreover have "parseToolName ''tool'' = Inl (InvalidToolName ''tool'')"
    by (simp add: parseToolName_def Split_def HasPrefix_def)
  moreover have "parseToolName ''server__tool__extra'' =
      Inl (InvalidToolName ''server__tool__extra'')"
    by (simp add: parseToolName_def Split_def HasPrefix_def)
  moreover have "parseToolName ''server__tool'' = Inr (''server'', ''tool'')"
    by (simp add: parseToolName_def Split_def HasPrefix_def)
  ultimately show ?thesis by blast
qed

theorem C2_rejection_witness:
  "Count ''readfile'' ''__'' = 0 \<and>
   parseToolName ''readfile'' = Inl (InvalidToolName ''readfile'') \<and>
   Error (InvalidToolName ''readfile'') = ''invalid tool name format: readfile''"
proof -
  have c: "Count ''readfile'' ''__'' = 0"
    by (simp add: HasPrefix_def)
  with C2_rejection [of "''readfile''"] obtain e where e: "parseToolName ''readfile'' = Inl e"
    by blast
  with C2_rejection [of "''readfile''"] have "e = InvalidToolName ''readfile''"
    by blast
  with c e show ?thesis by simp
qed



section \<open>The catalog\<close>

text \<open>
  The catalog of \<^verbatim>\<open>GetTools\<close> holds, for every session that answers, each of its
  tools under the qualified name built from the name of the session and the name of the
  tool; a session whose query fails contributes nothing.
\<close>

lemma listAll_eq:
  "listAll xs allTools =
     allTools @
     concat (map (\<lambda>(serverName, session).
                    case sessListTools session of
                      Inl err \<Rightarrow> []
                    | Inr tools \<Rightarrow>
                        map (\<lambda>tool. \<lparr>Tool_Type = ToolTypeFunction,
                                     Function_Name = qualifiedName serverName (Tool_Name tool),
                                     Function_Description = Tool_Description tool\<rparr>) tools) xs)"
  by (induction xs arbitrary: allTools) (auto split: sum.splits)

lemma GetTools_names:
  "map Function_Name (fst (GetTools c)) =
     concat (map (\<lambda>(serverName, session).
                    case sessListTools session of
                      Inl err \<Rightarrow> []
                    | Inr tools \<Rightarrow> map (\<lambda>tool. qualifiedName serverName (Tool_Name tool)) tools)
               (sessions c))"
  by (simp add: GetTools_def listAll_eq map_concat comp_def split_def sum.case_distrib
      cong: sum.case_cong)

section \<open>The registry\<close>

lemma closeAll_eq:
  "closeAll xs closed errs =
     (closed @ map fst xs, errs @ List.map_filter (\<lambda>x. sessClose (snd x)) xs)"
  by (induction xs arbitrary: closed errs) (auto split: option.splits)

lemma map_filter_Nil_iff:
  "(List.map_filter f xs = []) = (\<forall>x\<in>set xs. f x = None)"
  by (induction xs) (auto split: option.splits)

lemma count_list_distinct: "distinct xs \<Longrightarrow> x \<in> set xs \<Longrightarrow> count_list xs x = 1"
  by (induction xs) (auto simp add: count_list_0_iff)

lemma connectAll_sessions:
  "distinct (map fst cfg) \<Longrightarrow>
   map_of (sessions (fst (connectAll connect c log cfg))) name =
     (case map_of cfg name of
        None \<Rightarrow> map_of (sessions c) name
      | Some server \<Rightarrow>
          (case connect (transportOf server) of
             Inl e \<Rightarrow> map_of (sessions c) name
           | Inr session \<Rightarrow> Some session))"
proof (induction cfg arbitrary: c log)
  case Nil
  then show ?case by simp
next
  case (Cons x cfg)
  obtain n server where x: "x = (n, server)" by (cases x)
  from Cons.prems x have d: "distinct (map fst cfg)" and n: "map_of cfg n = None"
    by (auto simp add: map_of_eq_None_iff)
  show ?case
  proof (cases "connect (transportOf server)")
    case (Inl e)
    with x n show ?thesis
      by (simp add: connectToServer_def Cons.IH [OF d] split: option.splits)
  next
    case (Inr session)
    with x n show ?thesis
      by (auto simp add: connectToServer_def Cons.IH [OF d] update_conv' split: option.splits sum.splits)
  qed
qed

lemma connectAll_distinct:
  "distinct (map fst (sessions c)) \<Longrightarrow>
   distinct (map fst (sessions (fst (connectAll connect c log cfg))))"
proof (induction cfg arbitrary: c log)
  case Nil
  then show ?case by simp
next
  case (Cons x cfg)
  obtain n server where x: "x = (n, server)" by (cases x)
  show ?case
  proof (cases "connect (transportOf server)")
    case (Inl e)
    with x Cons.prems show ?thesis
      by (simp add: connectToServer_def Cons.IH)
  next
    case (Inr session)
    with x Cons.prems show ?thesis
      by (simp add: connectToServer_def Cons.IH distinct_update)
  qed
qed

text \<open>
  Claim C5: \<^verbatim>\<open>NewClient\<close> never fails, and the registry it returns holds a session for
  exactly the configured providers whose bind succeeded.  Afterwards a call routed to
  the name of a provider whose bind failed returns the unknown-provider error, and a
  call routed to a bound provider reaches the session that the bind returned.  The
  keys of the configuration map are distinct, as the keys of a Go map are.
\<close>

theorem C5_partial_availability:
  assumes "distinct (map fst (MCPServers config))"
    and "NewClient connect config = (c, err, log)"
  shows "err = None \<and>
    distinct (map fst (sessions c)) \<and>
    fst ` set (sessions c) =
      {name. \<exists>server session. map_of (MCPServers config) name = Some server \<and>
               connect (transportOf server) = Inr session} \<and>
    (map_of (MCPServers config) failed = Some server \<and>
       connect (transportOf server) = Inl e \<and> parseToolName q = Inr (failed, t) \<longrightarrow>
       CallTool c q args w = (Inl (ServerNotFound failed), w)) \<and>
    (map_of (MCPServers config) bound = Some server' \<and>
       connect (transportOf server') = Inr session \<and> parseToolName q' = Inr (bound, t') \<longrightarrow>
       map_of (sessions c) bound = Some session \<and>
       CallTool c q' args w =
         (case sessCallTool session t' args w of
            (Inl m, w') \<Rightarrow> (Inl (CallToolFailed m), w')
          | (Inr r, w') \<Rightarrow> (Inr (GoOther r), w')))"
proof -
  from assms(2) have c: "c = fst (connectAll connect \<lparr>sessions = []\<rparr> [] (MCPServers config))"
    and e: "err = None"
    by (auto simp add: NewClient_def split: prod.splits)
  have m: "map_of (sessions c) name =
     (case map_of (MCPServers config) name of
        None \<Rightarrow> None
      | Some server \<Rightarrow>
          (case connect (transportOf server) of Inl e \<Rightarrow> None | Inr session \<Rightarrow> Some session))"
    for name
    unfolding c
    by (simp add: connectAll_sessions [OF assms(1)] split: option.splits sum.splits)
  have d: "distinct (map fst (sessions c))"
    unfolding c by (rule connectAll_distinct) simp
  have dm: "(map_of (sessions c) name \<noteq> None) =
      (\<exists>server session. map_of (MCPServers config) name = Some server \<and>
         connect (transportOf server) = Inr session)" for name
    by (cases "map_of (MCPServers config) name";
        cases "connect (transportOf (the (map_of (MCPServers config) name)))")
       (simp_all add: m)
  have "fst ` set (sessions c) = dom (map_of (sessions c))"
    by (simp add: dom_map_of_conv_image_fst)
  also have "\<dots> = {name. \<exists>server session. map_of (MCPServers config) name = Some server \<and>
               connect (transportOf server) = Inr session}"
    unfolding dom_def by (simp only: dm)
  finally have s: "fst ` set (sessions c) =
      {name. \<exists>server session. map_of (MCPServers config) name = Some server \<and>
               connect (transportOf server) = Inr session}" .
  have f: "map_of (MCPServers config) failed = Some server \<and>
       connect (transportOf server) = Inl e \<and> parseToolName q = Inr (failed, t) \<longrightarrow>
       CallTool c q args w = (Inl (ServerNotFound failed), w)"
    by (simp add: CallTool_def m)
  have g: "map_of (MCPServers config) bound = Some server' \<and>
       connect (transportOf server') = Inr session \<and> parseToolName q' = Inr (bound, t') \<longrightarrow>
       map_of (sessions c) bound = Some session \<and>
       CallTool c q' args w =
         (case sessCallTool session t' args w of
            (Inl m, w') \<Rightarrow> (Inl (CallToolFailed m), w')
          | (Inr r, w') \<Rightarrow> (Inr (GoOther r), w'))"
    by (simp add: CallTool_def m)
  from e d s f g show ?thesis by (intro conjI)
qed

theorem C5_partial_availability_witness:
  "distinct (map fst (MCPServers exampleConfig)) \<and>
   NewClient exampleConnect exampleConfig =
     (exampleClient, None,
      [''Failed to connect to MCP server web: failed to connect to server: connection refused'']) \<and>
   fst ` set (sessions exampleClient) = {''fs''} \<and>
   CallTool exampleClient ''web__fetch'' () 0 = (Inl (ServerNotFound ''web''), 0) \<and>
   CallTool exampleClient ''fs__list_files'' () 0 = (Inr (GoOther ''a.txt b.txt''), 1)"
proof -
  let ?web = "\<lparr>Command = [], Args = [], Env = [], Type = ''sse'',
                URL = ''http://localhost:8080/sse'', Headers = []\<rparr>"
  let ?fs = "\<lparr>Command = ''fs-server'', Args = [], Env = [], Type = [],
               URL = [], Headers = []\<rparr>"
  have d: "distinct (map fst (MCPServers exampleConfig))"
    by (simp add: exampleConfig_def)
  have n: "NewClient exampleConnect exampleConfig =
     (exampleClient, None,
      [''Failed to connect to MCP server web: failed to connect to server: connection refused''])"
    by (simp add: NewClient_def exampleConfig_def connectToServer_def transportOf_def
        exampleConnect_def exampleClient_def)
  have w: "map_of (MCPServers exampleConfig) ''web'' = Some ?web \<and>
      exampleConnect (transportOf ?web) = Inl ''connection refused'' \<and>
      parseToolName ''web__fetch'' = Inr (''web'', ''fetch'')"
    by (simp add: exampleConfig_def exampleConnect_def transportOf_def parseToolName_def
        Split_def HasPrefix_def)
  have f: "map_of (MCPServers exampleConfig) ''fs'' = Some ?fs \<and>
      exampleConnect (transportOf ?fs) = Inr fsSession \<and>
      parseToolName ''fs__list_files'' = Inr (''fs'', ''list_files'')"
    by (simp add: exampleConfig_def exampleConnect_def transportOf_def parseToolName_def
        Split_def HasPrefix_def)
  have s: "{name. \<exists>server session. map_of (MCPServers exampleConfig) name = Some server \<and>
               exampleConnect (transportOf server) = Inr session} = {''fs''}"
    by (auto simp add: exampleConfig_def exampleConnect_def transportOf_def
        split: if_splits)
  from C5_partial_availability [OF d n, of "''web''" ?web "''connection refused''"
      "''web__fetch''" "''fetch''" "()" 0 "''fs''" ?fs fsSession "''fs__list_files''"
      "''list_files''"] d n w f s
  show ?thesis
    by (simp add: fsSession_def fsCallTool_def)
qed

text \<open>
  Claim C8, as the specification states it: the combined error enumerates every
  provider that failed to close.  \<^verbatim>\<open>Close\<close> ranges over the sessions without their
  names, so the error holds the texts of the failures only: two registries in which
  different providers fail return the same error.
\<close>

theorem C8_close_counterexample:
  "failedProviders twoSessions = [''web''] \<and>
   failedProviders swappedSessions = [''fs''] \<and>
   snd (Close twoSessions) = Some (CloseFailed [''EOF'']) \<and>
   snd (Close swappedSessions) = Some (CloseFailed [''EOF'']) \<and>
   Error (CloseFailed [''EOF'']) = ''failed to close some connections: [EOF]''"
  by (simp add: failedProviders_def Close_def twoSessions_def swappedSessions_def
      fsSession_def brokenSession_def)

text \<open>
  Claim C8, amended: \<^verbatim>\<open>Close\<close> calls \<^verbatim>\<open>Close\<close> on every session of the registry, once
  each and whatever the earlier calls returned; it returns \<^verbatim>\<open>nil\<close> exactly when every
  session closed without error, and otherwise one combined error, whose text is
  \<^verbatim>\<open>failed to close some connections: \<close> followed by the bracketed list of the error
  texts of the sessions that failed to close, in the order of the calls, one for each
  provider that failed; the names of the providers are not in it.
\<close>

theorem C8_close:
  "fst (Close c) = map fst (sessions c) \<and>
   (distinct (map fst (sessions c)) \<longrightarrow>
      (\<forall>name\<in>set (map fst (sessions c)). count_list (fst (Close c)) name = 1)) \<and>
   ((snd (Close c) = None) = (\<forall>x\<in>set (sessions c). sessClose (snd x) = None)) \<and>
   ((snd (Close c) = None) = (failedProviders c = [])) \<and>
   (failedProviders c \<noteq> [] \<longrightarrow>
      snd (Close c) = Some (CloseFailed (closeErrors c)) \<and>
      Error (CloseFailed (closeErrors c)) =
        ''failed to close some connections: ['' @ joinSpace (closeErrors c) @ '']'' \<and>
      length (closeErrors c) = length (failedProviders c)) \<and>
   Error (CloseFailed [''EOF'', ''timeout'']) =
     ''failed to close some connections: [EOF timeout]''"
proof -
  have e: "List.map_filter (\<lambda>x. sessClose (snd x)) (sessions c) = closeErrors c"
    by (simp add: closeErrors_def map_filter_def comp_def)
  have r: "Close c =
      (map fst (sessions c),
       if closeErrors c = [] then None else Some (CloseFailed (closeErrors c)))"
    by (simp add: Close_def closeAll_eq e)
  then have trace: "fst (Close c) = map fst (sessions c)"
    by simp
  have once: "distinct (map fst (sessions c)) \<longrightarrow>
      (\<forall>name\<in>set (map fst (sessions c)). count_list (fst (Close c)) name = 1)"
    unfolding trace by (simp add: count_list_distinct)
  have n: "length (closeErrors c) = length (failedProviders c)"
    by (simp add: closeErrors_def failedProviders_def)
  then have z: "(closeErrors c = []) = (failedProviders c = [])"
    by (metis length_0_conv)
  have nil: "(snd (Close c) = None) = (\<forall>x\<in>set (sessions c). sessClose (snd x) = None)"
    unfolding r by (simp add: e [symmetric] map_filter_Nil_iff)
  have nil': "(snd (Close c) = None) = (failedProviders c = [])"
    unfolding r by (simp add: z)
  have combined: "failedProviders c \<noteq> [] \<longrightarrow>
      snd (Close c) = Some (CloseFailed (closeErrors c)) \<and>
      Error (CloseFailed (closeErrors c)) =
        ''failed to close some connections: ['' @ joinSpace (closeErrors c) @ '']'' \<and>
      length (closeErrors c) = length (failedProviders c)"
    unfolding r using n by (simp add: z)
  have rendered: "Error (CloseFailed [''EOF'', ''timeout'']) =
      ''failed to close some connections: [EOF timeout]''"
    by simp
  from trace once nil nil' combined rendered show ?thesis by (intro conjI)
qed

theorem C8_close_witness:
  "distinct (map fst (sessions brokenSessions)) \<and>
   failedProviders brokenSessions = [''fs'', ''web''] \<and>
   fst (Close brokenSessions) = [''fs'', ''web''] \<and>
   count_list (fst (Close brokenSessions)) ''fs'' = 1 \<and>
   count_list (fst (Close brokenSessions)) ''web'' = 1 \<and>
   snd (Close brokenSessions) = Some (CloseFailed [''EOF'', ''timeout'']) \<and>
   Error (CloseFailed [''EOF'', ''timeout'']) =
     ''failed to close some connections: [EOF timeout]'' \<and>
   failedProviders exampleClient = [] \<and>
   snd (Close exampleClient) = None"
proof -
  note t = C8_close [of brokenSessions]
  have s: "map fst (sessions brokenSessions) = [''fs'', ''web'']"
    by (simp add: brokenSessions_def)
  then have d: "distinct (map fst (sessions brokenSessions))"
    by simp
  have f: "failedProviders brokenSessions = [''fs'', ''web'']"
    by (simp add: failedProviders_def brokenSessions_def brokenSession_def timeoutSession_def)
  then have bad: "failedProviders brokenSessions \<noteq> []"
    by simp
  have m: "closeErrors brokenSessions = [''EOF'', ''timeout'']"
    by (simp add: closeErrors_def brokenSessions_def brokenSession_def timeoutSession_def)
  from t have tr: "fst (Close brokenSessions) = [''fs'', ''web'']"
    unfolding s by blast
  from t d have "\<forall>name\<in>set (map fst (sessions brokenSessions)).
      count_list (fst (Close brokenSessions)) name = 1"
    by blast
  then have c: "count_list (fst (Close brokenSessions)) ''fs'' = 1"
    "count_list (fst (Close brokenSessions)) ''web'' = 1"
    unfolding s by simp_all
  from t bad have r: "snd (Close brokenSessions) = Some (CloseFailed [''EOF'', ''timeout''])"
    and x: "Error (CloseFailed [''EOF'', ''timeout'']) =
      ''failed to close some connections: [EOF timeout]''"
    unfolding m by blast+
  have g: "failedProviders exampleClient = []"
    by (simp add: failedProviders_def exampleClient_def fsSession_def)
  with C8_close [of exampleClient] have e: "snd (Close exampleClient) = None"
    by blast
  from d f tr c r x g e show ?thesis by (intro conjI)
qed

section \<open>Streaming inference\<close>

text \<open>
  What the streaming variant returns for a stream that ends with its completing
  fragment: the content is the concatenation of the contents of all fragments, and the
  tool calls are those of the completing fragment, twice.
\<close>

lemma respFunc_builder:
  "fst (snd (foldl respFunc (finalMessage, contentBuilder, printed) resps)) =
     contentBuilder @ concat (map (\<lambda>resp. Content (Message resp)) resps)"
proof (induction resps arbitrary: finalMessage contentBuilder printed)
  case Nil
  then show ?case by simp
next
  case (Cons resp resps)
  obtain fm cb pr where r: "respFunc (finalMessage, contentBuilder, printed) resp = (fm, cb, pr)"
    by (cases "respFunc (finalMessage, contentBuilder, printed) resp")
  then have "cb = contentBuilder @ Content (Message resp)"
    by (auto simp add: respFunc_def Let_def split: if_splits)
  with r Cons.IH [of fm cb pr] show ?case by simp
qed

lemma respFunc_Done:
  assumes "Done resp"
  shows "fst (respFunc (finalMessage, contentBuilder, printed) resp) =
     (Message resp)\<lparr>Content := contentBuilder @ Content (Message resp),
                     ToolCalls := ToolCalls (Message resp) @ ToolCalls (Message resp)\<rparr>"
  using assms by (simp add: respFunc_def Let_def)

lemma streaming_result:
  assumes "Chat a \<lparr>Model = model a, Stream = True, Messages = conv, Tools = tools\<rparr> =
           (resps @ [final], None)"
    and "Done final"
  shows "fst (runInferenceStreaming a conv tools) =
     Inr ((Message final)
            \<lparr>Content := concat (map (\<lambda>resp. Content (Message resp)) (resps @ [final])),
             ToolCalls := ToolCalls (Message final) @ ToolCalls (Message final)\<rparr>)"
proof -
  obtain fm cb pr where f: "foldl respFunc (emptyMessage, [], []) resps = (fm, cb, pr)"
    by (cases "foldl respFunc (emptyMessage, [], []) resps")
  from respFunc_builder [of emptyMessage "[]" "[]" resps] f
  have cb: "cb = concat (map (\<lambda>resp. Content (Message resp)) resps)" by simp
  obtain fm' cb' pr' where g: "respFunc (fm, cb, pr) final = (fm', cb', pr')"
    by (cases "respFunc (fm, cb, pr) final")
  from respFunc_Done [OF assms(2), of fm cb pr] g cb
  have "fm' = (Message final)
            \<lparr>Content := concat (map (\<lambda>resp. Content (Message resp)) (resps @ [final])),
             ToolCalls := ToolCalls (Message final) @ ToolCalls (Message final)\<rparr>"
    by simp
  with assms(1) f g show ?thesis
    by (simp add: runInferenceStreaming_def)
qed

text \<open>
  Claim C3 on a stream of two fragments, the first with the call \<open>ghostCall\<close> and the
  second, which completes the stream, with the call \<open>listCall\<close>.  The content of the
  message returned is the concatenation of the two texts.  Its tool calls are not the
  calls of the stream, each once: the assignment of the completing fragment to
  \<^verbatim>\<open>finalMessage\<close> drops the call collected before, and the calls of the completing
  fragment are then appended to themselves.
\<close>

theorem C3_streaming_tool_calls:
  "fst (Chat streamingAgent
          \<lparr>Model = model streamingAgent, Stream = True, Messages = [], Tools = []\<rparr>) =
     [\<lparr>Message = \<lparr>Role = ''assistant'', Content = ''Let me '', ToolCalls = [ghostCall],
                   ToolName = []\<rparr>, Done = False\<rparr>,
      \<lparr>Message = \<lparr>Role = ''assistant'', Content = ''look.'', ToolCalls = [listCall],
                   ToolName = []\<rparr>, Done = True\<rparr>] \<and>
   fst (runInferenceStreaming streamingAgent [] []) =
     Inr \<lparr>Role = ''assistant'', Content = ''Let me look.'',
          ToolCalls = [listCall, listCall], ToolName = []\<rparr> \<and>
   [listCall, listCall] \<noteq> [ghostCall, listCall]"
  by (simp add: runInferenceStreaming_def streamingAgent_def exampleChat_def respFunc_def
      emptyMessage_def ghostCall_def listCall_def)

section \<open>Formatting of tool results\<close>

text \<open>
  Claim C7, as the specification states it: every payload that is neither a string nor
  a byte slice is stored as an indented JSON document, and the preview is at most 500
  characters long.  A payload that the serializer rejects is stored in its default
  format instead, and the preview of a text of 501 bytes is 515 bytes long.
\<close>

theorem C7_result_formatting_counterexample:
  "exampleMarshalIndent [] = Inl ''json: unsupported value'' \<and>
   formatToolResult exampleMarshalIndent exampleSprintv (GoOther []) = ''&{}'' \<and>
   length (truncateString (replicate 501 (CHR ''x'')) 500) = 515"
  by (simp add: exampleMarshalIndent_def exampleSprintv_def formatToolResult_def
      truncateString_def)

text \<open>
  Claim C7, amended: a string payload is stored as it is and a byte payload as its
  text; any other payload is stored as its indented JSON document when the
  serialization succeeds and in its default format when it fails.  The preview on the
  screen is the whole text when that is at most 500 bytes long, and otherwise its
  first 500 bytes followed by a truncation mark; the message appended to the
  conversation carries the whole text.
\<close>

theorem C7_result_formatting:
  assumes "CallTool (mcpClient a) (ToolCall_Name tc) (ToolCall_Arguments tc) (world st) =
           (Inr r, w')"
  shows "formatToolResult mi sv (GoString s) = s \<and>
    formatToolResult mi sv (GoBytes b) = b \<and>
    (mi v = Inr data \<longrightarrow> formatToolResult mi sv (GoOther v) = data) \<and>
    (mi v = Inl e \<longrightarrow> formatToolResult mi sv (GoOther v) = sv v) \<and>
    (length text \<le> 500 \<longrightarrow> truncateString text 500 = text) \<and>
    (500 < length text \<longrightarrow> truncateString text 500 = take 500 text @ ''... (truncated)'') \<and>
    conversation (execToolCall mi sv a st tc) =
      conversation st @
      [\<lparr>Role = ''tool'', Content = formatToolResult mi sv r, ToolCalls = [],
        ToolName = ToolCall_Name tc\<rparr>] \<and>
    out (execToolCall mi sv a st tc) =
      out st @
      [PrintTool (ToolCall_Name tc) (ToolCall_Arguments tc),
       PrintResult (truncateString (formatToolResult mi sv r) 500)]"
  using assms by (simp add: formatToolResult_def truncateString_def execToolCall_def)

theorem C7_result_formatting_witness:
  "CallTool (mcpClient exampleAgent) (ToolCall_Name listCall) (ToolCall_Arguments listCall)
     (world \<lparr>conversation = [], out = [], world = 0\<rparr>) = (Inr (GoOther ''a.txt b.txt''), 1) \<and>
   conversation (execToolCall exampleMarshalIndent exampleSprintv exampleAgent
       \<lparr>conversation = [], out = [], world = 0\<rparr> listCall) =
     [\<lparr>Role = ''tool'', Content = ''[ a.txt b.txt ]'', ToolCalls = [],
       ToolName = ''fs__list_files''\<rparr>] \<and>
   exampleMarshalIndent [] = Inl ''json: unsupported value'' \<and>
   formatToolResult exampleMarshalIndent exampleSprintv (GoOther []) = ''&{}'' \<and>
   500 < length (replicate 600 (CHR ''x'')) \<and>
   truncateString (replicate 600 (CHR ''x'')) 500 =
     replicate 500 (CHR ''x'') @ ''... (truncated)'' \<and>
   length ''a.txt'' \<le> 500 \<and> truncateString ''a.txt'' 500 = ''a.txt''"
proof -
  have c: "CallTool (mcpClient exampleAgent) (ToolCall_Name listCall)
      (ToolCall_Arguments listCall) (world \<lparr>conversation = [], out = [], world = 0\<rparr>) =
      (Inr (GoOther ''a.txt b.txt''), 1)"
    by (simp add: CallTool_def exampleAgent_def exampleClient_def listCall_def
        parseToolName_def Split_def HasPrefix_def fsSession_def fsCallTool_def)
  have m: "exampleMarshalIndent ''a.txt b.txt'' = Inr ''[ a.txt b.txt ]''"
    "exampleMarshalIndent [] = Inl ''json: unsupported value''"
    by (simp_all add: exampleMarshalIndent_def)
  have l: "500 < length (replicate 600 (CHR ''x''))" "length ''a.txt'' \<le> 500"
    by simp_all
  note t = C7_result_formatting [OF c, of exampleMarshalIndent exampleSprintv]
  from t [of _ _ "''a.txt b.txt''" "''[ a.txt b.txt ]''" _ "''a.txt''"]
    t [of _ _ "[]" _ "''json: unsupported value''" "replicate 600 (CHR ''x'')"] c m l
  show ?thesis
    by (simp add: formatToolResult_def exampleSprintv_def listCall_def)
qed

section \<open>Correctness of the conversation loop\<close>

lemma scan_append:
  "scan (xs @ ys) pending = (case scan xs pending of None \<Rightarrow> None | Some q \<Rightarrow> scan ys q)"
  by (induction xs arbitrary: pending) (auto split: list.splits)

lemma scan_counts:
  "scan conv pending = Some q \<Longrightarrow>
   toolMessages conv + length q = assistantToolCalls conv + length pending"
proof (induction conv arbitrary: pending)
  case Nil
  then show ?case by (simp add: toolMessages_def assistantToolCalls_def)
next
  case (Cons m conv)
  show ?case
  proof (cases "Role m = ''tool''")
    case True
    with Cons.prems obtain toolCall rest where p: "pending = toolCall # rest"
      and s: "scan conv rest = Some q"
      by (auto split: list.splits if_splits)
    from Cons.IH [OF s] True p show ?thesis
      by (simp add: toolMessages_def assistantToolCalls_def)
  next
    case False
    with Cons.prems have p: "pending = []"
      and s: "scan conv (if Role m = ''assistant'' then ToolCalls m else []) = Some q"
      by (auto split: if_splits)
    from Cons.IH [OF s] False p show ?thesis
      by (simp add: toolMessages_def assistantToolCalls_def)
  qed
qed

lemma execToolCall_conversation:
  "conversation (execToolCall mi sv a st toolCall) =
     conversation st @
     [\<lparr>Role = ''tool'',
       Content =
         (case fst (CallTool (mcpClient a) (ToolCall_Name toolCall)
                      (ToolCall_Arguments toolCall) (world st)) of
            Inl err \<Rightarrow> ''Error: '' @ Error err
          | Inr v \<Rightarrow> formatToolResult mi sv v),
       ToolCalls = [], ToolName = ToolCall_Name toolCall\<rparr>]"
  by (simp add: execToolCall_def Let_def split: prod.splits sum.splits)

lemma execToolCall_scan:
  assumes "scan (conversation st) [] = Some (toolCall # rest)"
  shows "scan (conversation (execToolCall mi sv a st toolCall)) [] = Some rest"
  using assms by (simp add: execToolCall_conversation scan_append)

lemma foldl_execToolCall_scan:
  "scan (conversation st) [] = Some (toolCalls @ rest) \<Longrightarrow>
   scan (conversation (foldl (execToolCall mi sv a) st toolCalls)) [] = Some rest"
proof (induction toolCalls arbitrary: st)
  case Nil
  then show ?case by simp
next
  case (Cons toolCall toolCalls)
  from Cons.prems have "scan (conversation st) [] = Some (toolCall # (toolCalls @ rest))"
    by simp
  then have "scan (conversation (execToolCall mi sv a st toolCall)) [] = Some (toolCalls @ rest)"
    by (rule execToolCall_scan)
  then show ?case by (simp add: Cons.IH)
qed

lemma showContent_conversation [simp]:
  "conversation (showContent a st message) = conversation st"
  by (simp add: showContent_def)

lemma execToolCalls_scan:
  "scan (conversation st) [] = Some (ToolCalls message) \<Longrightarrow>
   scan (conversation (execToolCalls mi sv a st message)) [] = Some []"
  unfolding execToolCalls_def by (rule foldl_execToolCall_scan) simp


lemma scan_snoc_reply:
  "scan conv [] = Some [] \<Longrightarrow>
   Role m = ''assistant'' \<or> Role m \<noteq> ''tool'' \<and> ToolCalls m = [] \<Longrightarrow>
   scan (conv @ [m]) [] = Some (ToolCalls m)"
  by (auto simp add: scan_append)

text \<open>
  What the two inference functions return for a provider that keeps the contract: an
  assistant message, or, when a blocking exchange delivered no response at all, the
  empty message, which has no tool call.
\<close>

lemma respFunc_Role:
  "Role (fst (respFunc (finalMessage, contentBuilder, printed) resp)) =
     (if Done resp then Role (Message resp) else Role finalMessage)"
  by (simp add: respFunc_def Let_def)

lemma respFunc_fold_Role:
  "\<forall>resp\<in>set resps. Role (Message resp) = r \<Longrightarrow>
   Role finalMessage = r \<or> (\<exists>resp\<in>set resps. Done resp) \<Longrightarrow>
   Role (fst (foldl respFunc (finalMessage, contentBuilder, printed) resps)) = r"
proof (induction resps arbitrary: finalMessage contentBuilder printed)
  case Nil
  then show ?case by simp
next
  case (Cons resp resps)
  obtain fm cb pr where s: "respFunc (finalMessage, contentBuilder, printed) resp = (fm, cb, pr)"
    by (cases "respFunc (finalMessage, contentBuilder, printed) resp")
  with respFunc_Role [of finalMessage contentBuilder printed resp]
  have "Role fm = (if Done resp then Role (Message resp) else Role finalMessage)"
    by simp
  with Cons.prems have "Role fm = r \<or> (\<exists>resp\<in>set resps. Done resp)"
    by (auto split: if_splits)
  moreover from Cons.prems(1) have "\<forall>resp\<in>set resps. Role (Message resp) = r"
    by simp
  ultimately have "Role (fst (foldl respFunc (fm, cb, pr) resps)) = r"
    by (rule Cons.IH [rotated])
  with s show ?case by simp
qed

lemma runInferenceStreaming_reply:
  assumes "providerContract a"
    and "fst (runInferenceStreaming a conv tools) = Inr m"
  shows "Role m = ''assistant''"
proof -
  let ?req = "\<lparr>Model = model a, Stream = True, Messages = conv, Tools = tools\<rparr>"
  obtain resps err where c: "Chat a ?req = (resps, err)"
    by (cases "Chat a ?req")
  obtain fm cb pr where f: "foldl respFunc (emptyMessage, [], []) resps = (fm, cb, pr)"
    by (cases "foldl respFunc (emptyMessage, [], []) resps")
  from assms(2) c f have e: "err = None" and m: "m = fm"
    by (auto simp add: runInferenceStreaming_def split: option.splits)
  from assms(1) c e have "\<forall>resp\<in>set resps. Role (Message resp) = ''assistant''"
    and "\<exists>resp\<in>set resps. Done resp"
    unfolding providerContract_def by fastforce+
  then have "Role (fst (foldl respFunc (emptyMessage, [], []) resps)) = ''assistant''"
    by (intro respFunc_fold_Role) simp_all
  with f m show ?thesis by simp
qed

lemma last_response:
  "foldl (\<lambda>responseMessage resp. Message resp) m resps =
     (if resps = [] then m else Message (last resps))"
  by (induction resps arbitrary: m) simp_all

lemma runInference_reply:
  assumes "providerContract a"
    and "runInference a conv tools = Inr m"
  shows "Role m = ''assistant'' \<or> Role m \<noteq> ''tool'' \<and> ToolCalls m = []"
proof -
  let ?req = "\<lparr>Model = model a, Stream = False, Messages = conv, Tools = tools\<rparr>"
  obtain resps err where c: "Chat a ?req = (resps, err)"
    by (cases "Chat a ?req")
  from assms(2) c have e: "err = None"
    and m: "m = (if resps = [] then emptyMessage else Message (last resps))"
    by (auto simp add: runInference_def last_response split: option.splits)
  from assms(1) c e have r: "\<forall>resp\<in>set resps. Role (Message resp) = ''assistant''"
    unfolding providerContract_def by fastforce
  show ?thesis
  proof (cases "resps = []")
    case True
    with m show ?thesis by (simp add: emptyMessage_def)
  next
    case False
    with r have "Role (Message (last resps)) = ''assistant''" by simp
    with False m show ?thesis by simp
  qed
qed

lemma scan_snoc_user:
  "scan conv [] = Some [] \<Longrightarrow>
   scan (conv @ [\<lparr>Role = ''user'', Content = text, ToolCalls = [], ToolName = []\<rparr>]) [] = Some []"
  by (simp add: scan_append)

lemma toolLoop_scan:
  assumes "toolLoop mi sv a tools st message = Some res"
    and "providerContract a"
    and "scan (conversation st) [] = Some (ToolCalls message)"
  shows "scan (conversation (fst res)) [] = Some []"
  using assms
proof (induction rule: toolLoop.raw_induct [rotated 1, consumes 1])
  case (1 loop mi sv a tools st message res)
  note IH = "1.IH" and eq = "1.hyps" and replies = "1.prems"(1) and inv = "1.prems"(2)
  show ?case
  proof (cases "0 < length (ToolCalls message)")
    case False
    with eq have "fst res = showContent a st message" by auto
    with False inv show ?thesis by simp
  next
    case True
    let ?st2 = "execToolCalls mi sv a st message"
    have s2: "scan (conversation ?st2) [] = Some []"
      using inv by (rule execToolCalls_scan)
    show ?thesis
    proof (cases "runInference a (conversation ?st2) tools")
      case (Inl e)
      with True eq have "fst res = ?st2" by auto
      with s2 show ?thesis by simp
    next
      case (Inr message')
      with replies
      have r: "Role message' = ''assistant'' \<or> Role message' \<noteq> ''tool'' \<and> ToolCalls message' = []"
        by (intro runInference_reply)
      from Inr True eq
      have l: "loop mi sv a tools (?st2\<lparr>conversation := conversation ?st2 @ [message']\<rparr>)
          message' = Some res"
        by simp
      have "scan (conversation (?st2\<lparr>conversation := conversation ?st2 @ [message']\<rparr>)) []
          = Some (ToolCalls message')"
        using scan_snoc_reply [OF s2 r] by simp
      with IH [OF l replies] show ?thesis .
    qed
  qed
qed

lemma toolLoop_error:
  assumes "toolLoop mi sv a tools st message = Some res"
    and "snd res = Some err"
  shows "\<exists>text. err = External text"
  using assms
proof (induction rule: toolLoop.raw_induct [rotated 1, consumes 1])
  case (1 loop mi sv a tools st message res)
  note IH = "1.IH" and eq = "1.hyps" and failed = "1.prems"
  show ?case
  proof (cases "0 < length (ToolCalls message)")
    case False
    with eq failed show ?thesis by auto
  next
    case True
    let ?st2 = "execToolCalls mi sv a st message"
    show ?thesis
    proof (cases "runInference a (conversation ?st2) tools")
      case (Inl e)
      with True eq failed have "runInference a (conversation ?st2) tools = Inl err"
        by auto
      then show ?thesis
        by (auto simp add: runInference_def Let_def split: prod.splits option.splits)
    next
      case (Inr message')
      with True eq
      have "loop mi sv a tools (?st2\<lparr>conversation := conversation ?st2 @ [message']\<rparr>)
          message' = Some res"
        by simp
      from IH [OF this failed] show ?thesis .
    qed
  qed
qed

lemma firstInference_conversation:
  "conversation (snd (firstInference a tools st)) = conversation st"
  by (simp add: firstInference_def split: prod.splits)

lemma firstInference_reply:
  assumes "providerContract a" and "fst (firstInference a tools st) = Inr message"
  shows "Role message = ''assistant'' \<or> Role message \<noteq> ''tool'' \<and> ToolCalls message = []"
proof (cases "stream a")
  case True
  with assms(2) have "fst (runInferenceStreaming a (conversation st) tools) = Inr message"
    by (simp add: firstInference_def split: prod.splits)
  from runInferenceStreaming_reply [OF assms(1) this] show ?thesis by simp
next
  case False
  with assms(2) have "runInference a (conversation st) tools = Inr message"
    by (simp add: firstInference_def)
  from runInference_reply [OF assms(1) this] show ?thesis .
qed

lemma firstInference_error:
  "fst (firstInference a tools st) = Inl err \<Longrightarrow> \<exists>text. err = External text"
  by (auto simp add: firstInference_def runInference_def runInferenceStreaming_def Let_def
      split: if_splits prod.splits option.splits)

lemma chatLoop_scan:
  "chatLoop mi sv a tools st inputs = Some res \<Longrightarrow> providerContract a \<Longrightarrow>
   scan (conversation st) [] = Some [] \<Longrightarrow> scan (conversation (fst res)) [] = Some []"
proof (induction inputs arbitrary: st)
  case Nil
  then show ?case by auto
next
  case (Cons userInput inputs)
  show ?case
  proof (cases "userInput = []")
    case True
    with Cons.prems(1) have "chatLoop mi sv a tools st inputs = Some res" by simp
    from Cons.IH [OF this Cons.prems(2,3)] show ?thesis .
  next
    case False
    let ?user = "\<lparr>Role = ''user'', Content = userInput, ToolCalls = [], ToolName = []\<rparr>"
    let ?st0 = "st\<lparr>conversation := conversation st @ [?user]\<rparr>"
    obtain r st1 where f: "firstInference a tools ?st0 = (r, st1)"
      by (cases "firstInference a tools ?st0")
    from firstInference_conversation [of a tools ?st0] f
    have c1: "conversation st1 = conversation st @ [?user]" by simp
    have s1: "scan (conversation st1) [] = Some []"
      unfolding c1 using Cons.prems(3) by (rule scan_snoc_user)
    show ?thesis
    proof (cases r)
      case (Inl err)
      with False f Cons.prems(1) have "fst res = st1" by auto
      with s1 show ?thesis by simp
    next
      case (Inr message)
      with f firstInference_reply [OF Cons.prems(2), of tools ?st0 message]
      have role: "Role message = ''assistant'' \<or> Role message \<noteq> ''tool'' \<and> ToolCalls message = []"
        by simp
      let ?st2 = "st1\<lparr>conversation := conversation st1 @ [message]\<rparr>"
      have s2: "scan (conversation ?st2) [] = Some (ToolCalls message)"
        using scan_snoc_reply [OF s1 role] by simp
      show ?thesis
      proof (cases "toolLoop mi sv a tools ?st2 message")
        case None
        with False f Inr Cons.prems(1) show ?thesis by simp
      next
        case (Some res2)
        note loop = this
        from toolLoop_scan [OF loop Cons.prems(2) s2]
        have s3: "scan (conversation (fst res2)) [] = Some []" .
        show ?thesis
        proof (cases "snd res2")
          case None
          with False f Inr loop Cons.prems(1)
          have "chatLoop mi sv a tools (fst res2) inputs = Some res"
            by (cases res2) simp
          from Cons.IH [OF this Cons.prems(2) s3] show ?thesis .
        next
          case (Some err)
          with False f Inr loop Cons.prems(1)
          have "res = res2" by (cases res2) simp
          with s3 show ?thesis by simp
        qed
      qed
    qed
  qed
qed

lemma Run_chatLoop:
  "Run mi sv a inputs w =
     chatLoop mi sv a (fst (GetTools (mcpClient a)))
       \<lparr>conversation = [], out = [PrintBanner (length (fst (GetTools (mcpClient a))))],
        world = w\<rparr> inputs"
  by (simp add: Run_def GetTools_def)

lemma exampleAgent_contract: "providerContract exampleAgent"
  by (auto simp add: providerContract_def exampleAgent_def exampleChat_def split: if_splits)

lemma example_Run:
  "Run exampleMarshalIndent exampleSprintv exampleAgent [''list files''] 0 =
     Some (\<lparr>conversation = exampleConversation, out = exampleOut, world = 1\<rparr>, None)"
  by (simp add: Run_def GetTools_def exampleAgent_def exampleClient_def fsSession_def
      firstInference_def runInference_def exampleChat_def toolLoop.simps execToolCalls_def
      execToolCall_def showContent_def CallTool_def parseToolName_def Split_def HasPrefix_def
      ghostCall_def listCall_def emptyMessage_def formatToolResult_def exampleMarshalIndent_def
      fsCallTool_def truncateString_def qualifiedName_def ToolTypeFunction_def
      exampleConversation_def exampleOut_def)

lemma rounds_toolLoop:
  "rounds n mi sv a tools st message = Some (st', message') \<Longrightarrow>
   \<not> 0 < length (ToolCalls message') \<Longrightarrow>
   toolLoop mi sv a tools st message = Some (showContent a st' message', None)"
proof (induction n arbitrary: st message)
  case 0
  then show ?case by (subst toolLoop.simps) simp
next
  case (Suc n)
  let ?st2 = "execToolCalls mi sv a st message"
  from Suc.prems(1) have t: "0 < length (ToolCalls message)"
    by (simp split: if_splits)
  with Suc.prems(1) obtain next_message
    where r: "runInference a (conversation ?st2) tools = Inr next_message"
      and n: "rounds n mi sv a tools
                (?st2\<lparr>conversation := conversation ?st2 @ [next_message]\<rparr>) next_message =
              Some (st', message')"
    by (auto split: sum.splits)
  from Suc.IH [OF n Suc.prems(2)] t r show ?case
    by (subst toolLoop.simps) simp
qed

lemma foldl_execToolCall_conversation:
  "\<exists>later. conversation (foldl (execToolCall mi sv a) st toolCalls) = conversation st @ later \<and>
     length later = length toolCalls"
proof (induction toolCalls arbitrary: st)
  case Nil
  then show ?case by simp
next
  case (Cons toolCall toolCalls)
  from Cons.IH [of "execToolCall mi sv a st toolCall"] obtain later
    where "conversation (foldl (execToolCall mi sv a) (execToolCall mi sv a st toolCall) toolCalls)
        = conversation (execToolCall mi sv a st toolCall) @ later"
      and "length later = length toolCalls"
    by blast
  then show ?case
    by (simp add: execToolCall_conversation)
qed

lemma CallTool_error_class:
  "fst (CallTool c name args w) = Inl err \<Longrightarrow>
   err = InvalidToolName name \<or> (\<exists>serverName. err = ServerNotFound serverName) \<or>
   (\<exists>text. err = CallToolFailed text)"
  by (auto simp add: CallTool_def parseToolName_def Let_def
      split: if_splits sum.splits prod.splits option.splits)

lemma chatLoop_error:
  "chatLoop mi sv a tools st inputs = Some res \<Longrightarrow> snd res = Some err \<Longrightarrow>
   \<exists>text. err = External text"
proof (induction inputs arbitrary: st)
  case Nil
  then show ?case by auto
next
  case (Cons userInput inputs)
  show ?case
  proof (cases "userInput = []")
    case True
    with Cons.prems(1) have "chatLoop mi sv a tools st inputs = Some res" by simp
    from Cons.IH [OF this Cons.prems(2)] show ?thesis .
  next
    case False
    let ?user = "\<lparr>Role = ''user'', Content = userInput, ToolCalls = [], ToolName = []\<rparr>"
    let ?st0 = "st\<lparr>conversation := conversation st @ [?user]\<rparr>"
    obtain r st1 where f: "firstInference a tools ?st0 = (r, st1)"
      by (cases "firstInference a tools ?st0")
    show ?thesis
    proof (cases r)
      case (Inl e)
      with False f Cons.prems have "e = err" by auto
      with Inl f firstInference_error [of a tools ?st0 err] show ?thesis by simp
    next
      case (Inr message)
      let ?st2 = "st1\<lparr>conversation := conversation st1 @ [message]\<rparr>"
      show ?thesis
      proof (cases "toolLoop mi sv a tools ?st2 message")
        case None
        with False f Inr Cons.prems(1) show ?thesis by simp
      next
        case (Some res2)
        note loop = this
        show ?thesis
        proof (cases "snd res2")
          case None
          with False f Inr loop Cons.prems(1)
          have "chatLoop mi sv a tools (fst res2) inputs = Some res"
            by (cases res2) simp
          from Cons.IH [OF this Cons.prems(2)] show ?thesis .
        next
          case (Some e)
          with False f Inr loop Cons.prems(1)
          have "res = res2" by (cases res2) simp
          with Cons.prems(2) have "snd res2 = Some err" by simp
          from toolLoop_error [OF loop this] show ?thesis .
        qed
      qed
    qed
  qed
qed

text \<open>
  Claim C4, as the specification states it, for every run.  It fails when the
  inference provider breaks its contract.  A stream that ends without error before any
  completing response, every fragment of it an assistant fragment, leaves a message
  with an empty role that still carries the call collected: \<^verbatim>\<open>Run\<close> executes the call
  and ends with one tool message and no tool call of an assistant message.  A provider
  that answers with the role \<^verbatim>\<open>tool\<close> adds a tool message that answers no call.
\<close>

theorem C4_correlation_counterexample:
  "map_option (conversation \<circ> fst)
     (Run exampleMarshalIndent exampleSprintv cutAgent [''list files''] 0) =
     Some cutConversation \<and>
   toolMessages cutConversation = 1 \<and> assistantToolCalls cutConversation = 0 \<and>
   \<not> correlated cutConversation \<and>
   map_option (conversation \<circ> fst)
     (Run exampleMarshalIndent exampleSprintv toolRoleAgent [''list files''] 0) =
     Some toolRoleConversation \<and>
   toolMessages toolRoleConversation = 1 \<and> assistantToolCalls toolRoleConversation = 0 \<and>
   \<not> correlated toolRoleConversation"
proof -
  have "Run exampleMarshalIndent exampleSprintv cutAgent [''list files''] 0 =
      Some (\<lparr>conversation = cutConversation,
              out = [PrintBanner 1, PrintOllamaPrefix, PrintFragment ''Let me look.'',
                     PrintTool ''fs__list_files'' (), PrintResult ''[ a.txt b.txt ]''],
              world = 1\<rparr>, None)"
    by (simp add: Run_def GetTools_def cutAgent_def exampleClient_def fsSession_def
        firstInference_def runInference_def runInferenceStreaming_def respFunc_def cutChat_def
        toolLoop.simps execToolCalls_def execToolCall_def showContent_def CallTool_def
        parseToolName_def Split_def HasPrefix_def listCall_def emptyMessage_def
        formatToolResult_def exampleMarshalIndent_def fsCallTool_def truncateString_def
        qualifiedName_def ToolTypeFunction_def cutConversation_def)
  moreover have "Run exampleMarshalIndent exampleSprintv toolRoleAgent [''list files''] 0 =
      Some (\<lparr>conversation = toolRoleConversation,
              out = [PrintBanner 1, PrintOllama ''a.txt b.txt''], world = 0\<rparr>, None)"
    by (simp add: Run_def GetTools_def toolRoleAgent_def exampleClient_def fsSession_def
        firstInference_def runInference_def toolRoleChat_def toolLoop.simps showContent_def
        emptyMessage_def qualifiedName_def ToolTypeFunction_def toolRoleConversation_def)
  moreover have "toolMessages cutConversation = 1 \<and> assistantToolCalls cutConversation = 0 \<and>
      \<not> correlated cutConversation"
    by (simp add: toolMessages_def assistantToolCalls_def correlated_def cutConversation_def)
  moreover have "toolMessages toolRoleConversation = 1 \<and>
      assistantToolCalls toolRoleConversation = 0 \<and> \<not> correlated toolRoleConversation"
    by (simp add: toolMessages_def assistantToolCalls_def correlated_def
        toolRoleConversation_def)
  ultimately show ?thesis by simp
qed

text \<open>
  Claim C4, amended: for every run with an inference provider that keeps its contract
  (every response carries an assistant message, and a streaming exchange that ends
  without error has delivered a completing response), in the conversation that the run
  ends with, whether it ends with or without an error, every tool call of an assistant
  message is followed by one tool message with the tool name of that call, in the
  order of the calls and before any other message, and there is no other tool message;
  so the tool messages are as many as the tool calls of the assistant messages.
\<close>

theorem C4_correlation:
  assumes "Run mi sv a inputs w = Some (st, err)" and "providerContract a"
  shows "correlated (conversation st) \<and>
         toolMessages (conversation st) = assistantToolCalls (conversation st)"
proof -
  from assms(1) have "chatLoop mi sv a (fst (GetTools (mcpClient a)))
       \<lparr>conversation = [], out = [PrintBanner (length (fst (GetTools (mcpClient a))))],
        world = w\<rparr> inputs = Some (st, err)"
    by (simp add: Run_chatLoop)
  from chatLoop_scan [OF this assms(2)] have s: "scan (conversation st) [] = Some []"
    by simp
  from scan_counts [OF s] s show ?thesis
    by (simp add: correlated_def)
qed

theorem C4_correlation_witness:
  "Run exampleMarshalIndent exampleSprintv exampleAgent [''list files''] 0 =
     Some (\<lparr>conversation = exampleConversation, out = exampleOut, world = 1\<rparr>, None) \<and>
   providerContract exampleAgent \<and>
   correlated exampleConversation \<and>
   toolMessages exampleConversation = 2 \<and> assistantToolCalls exampleConversation = 2"
proof -
  have "toolMessages exampleConversation = 2"
    by (simp add: toolMessages_def exampleConversation_def)
  with C4_correlation [OF example_Run exampleAgent_contract] example_Run exampleAgent_contract
  show ?thesis by simp
qed

text \<open>
  Claim C6: when the call of a tool returns an error, of whatever class, the tool
  message appended for it carries \<^verbatim>\<open>Error: \<close> followed by the text of the error, the
  remaining calls of the message are executed, and the loop goes on to the next
  inference.  An error that \<^verbatim>\<open>Run\<close> returns is an error of the inference provider,
  never the error of a tool call.  For the unknown provider \<^verbatim>\<open>ghost\<close> the text is
  \<^verbatim>\<open>Error: server ghost not found\<close>.
\<close>

theorem C6_tool_errors_fed_back:
  assumes "ToolCalls message = before @ toolCall # after"
    and "fst (CallTool (mcpClient a) (ToolCall_Name toolCall) (ToolCall_Arguments toolCall)
           (world (foldl (execToolCall mi sv a) (showContent a st message) before))) = Inl err"
  shows "(\<exists>later. conversation (execToolCalls mi sv a st message) =
            conversation (foldl (execToolCall mi sv a) (showContent a st message) before) @
            \<lparr>Role = ''tool'', Content = ''Error: '' @ Error err, ToolCalls = [],
              ToolName = ToolCall_Name toolCall\<rparr> # later \<and>
            length later = length after) \<and>
         toolLoop mi sv a tools st message =
           (case runInference a (conversation (execToolCalls mi sv a st message)) tools of
              Inl e \<Rightarrow> Some (execToolCalls mi sv a st message, Some e)
            | Inr message' \<Rightarrow>
                toolLoop mi sv a tools
                  ((execToolCalls mi sv a st message)
                     \<lparr>conversation :=
                        conversation (execToolCalls mi sv a st message) @ [message']\<rparr>)
                  message') \<and>
         (Run mi sv a inputs w = Some (final, Some e) \<longrightarrow> (\<exists>text. e = External text)) \<and>
         (\<forall>text. err \<noteq> External text) \<and>
         (map_of (sessions c) ''ghost'' = None \<longrightarrow>
            CallTool c ''ghost__read'' args w' = (Inl (ServerNotFound ''ghost''), w')) \<and>
         ''Error: '' @ Error (ServerNotFound ''ghost'') = ''Error: server ghost not found''"
proof -
  let ?stb = "foldl (execToolCall mi sv a) (showContent a st message) before"
  obtain later where l: "conversation (foldl (execToolCall mi sv a)
        (execToolCall mi sv a ?stb toolCall) after) =
      conversation (execToolCall mi sv a ?stb toolCall) @ later"
    and n: "length later = length after"
    using foldl_execToolCall_conversation by blast
  from assms l have "conversation (execToolCalls mi sv a st message) =
      conversation ?stb @
      \<lparr>Role = ''tool'', Content = ''Error: '' @ Error err, ToolCalls = [],
        ToolName = ToolCall_Name toolCall\<rparr> # later"
    by (simp add: execToolCalls_def execToolCall_conversation)
  with n have A: "\<exists>later. conversation (execToolCalls mi sv a st message) =
      conversation ?stb @
      \<lparr>Role = ''tool'', Content = ''Error: '' @ Error err, ToolCalls = [],
        ToolName = ToolCall_Name toolCall\<rparr> # later \<and> length later = length after"
    by blast
  from assms(1) have B: "toolLoop mi sv a tools st message =
      (case runInference a (conversation (execToolCalls mi sv a st message)) tools of
         Inl e \<Rightarrow> Some (execToolCalls mi sv a st message, Some e)
       | Inr message' \<Rightarrow>
           toolLoop mi sv a tools
             ((execToolCalls mi sv a st message)
                \<lparr>conversation :=
                   conversation (execToolCalls mi sv a st message) @ [message']\<rparr>)
             message')"
    by (subst toolLoop.simps) simp
  have C: "Run mi sv a inputs w = Some (final, Some e) \<longrightarrow> (\<exists>text. e = External text)"
  proof
    assume "Run mi sv a inputs w = Some (final, Some e)"
    then have "chatLoop mi sv a (fst (GetTools (mcpClient a)))
       \<lparr>conversation = [], out = [PrintBanner (length (fst (GetTools (mcpClient a))))],
        world = w\<rparr> inputs = Some (final, Some e)"
      by (simp add: Run_chatLoop)
    from chatLoop_error [OF this] show "\<exists>text. e = External text" by simp
  qed
  from CallTool_error_class [OF assms(2)] have D: "\<forall>text. err \<noteq> External text"
    by auto
  have p: "parseToolName ''ghost__read'' = Inr (''ghost'', ''read'')"
    by (simp add: parseToolName_def Split_def HasPrefix_def)
  then have E: "map_of (sessions c) ''ghost'' = None \<longrightarrow>
      CallTool c ''ghost__read'' args w' = (Inl (ServerNotFound ''ghost''), w')"
    by (simp add: CallTool_def)
  have F: "''Error: '' @ Error (ServerNotFound ''ghost'') = ''Error: server ghost not found''"
    by simp
  from A B C D E F show ?thesis by (intro conjI)
qed

theorem C6_tool_errors_fed_back_witness:
  "ToolCalls (exampleConversation ! 1) = [] @ ghostCall # [listCall] \<and>
   fst (CallTool (mcpClient exampleAgent) (ToolCall_Name ghostCall)
          (ToolCall_Arguments ghostCall)
          (world (foldl (execToolCall exampleMarshalIndent exampleSprintv exampleAgent)
                    (showContent exampleAgent
                       \<lparr>conversation = take 2 exampleConversation, out = [], world = 0\<rparr>
                       (exampleConversation ! 1)) []))) =
     Inl (ServerNotFound ''ghost'') \<and>
   (\<exists>later. conversation (execToolCalls exampleMarshalIndent exampleSprintv exampleAgent
                \<lparr>conversation = take 2 exampleConversation, out = [], world = 0\<rparr>
                (exampleConversation ! 1)) =
      take 2 exampleConversation @
      \<lparr>Role = ''tool'', Content = ''Error: server ghost not found'', ToolCalls = [],
        ToolName = ''ghost__read''\<rparr> # later \<and> length later = 1) \<and>
   map_of (sessions exampleClient) ''ghost'' = None \<and>
   CallTool exampleClient ''ghost__read'' () 0 = (Inl (ServerNotFound ''ghost''), 0)"
proof -
  let ?message = "exampleConversation ! 1"
  let ?st = "\<lparr>conversation = take 2 exampleConversation, out = [], world = 0\<rparr>
               :: (unit, nat) runState"
  have m: "ToolCalls ?message = [] @ ghostCall # [listCall]"
    by (simp add: exampleConversation_def)
  have g: "fst (CallTool (mcpClient exampleAgent) (ToolCall_Name ghostCall)
          (ToolCall_Arguments ghostCall)
          (world (foldl (execToolCall exampleMarshalIndent exampleSprintv exampleAgent)
                    (showContent exampleAgent ?st ?message) []))) =
     Inl (ServerNotFound ''ghost'')"
    by (simp add: CallTool_def exampleAgent_def exampleClient_def ghostCall_def
        parseToolName_def Split_def HasPrefix_def)
  have n: "map_of (sessions exampleClient) ''ghost'' = None"
    by (simp add: exampleClient_def)
  note t = C6_tool_errors_fed_back [OF m g]
  from t [THEN conjunct1] have fed: "\<exists>later.
      conversation (execToolCalls exampleMarshalIndent exampleSprintv exampleAgent ?st ?message) =
      take 2 exampleConversation @
      \<lparr>Role = ''tool'', Content = ''Error: server ghost not found'', ToolCalls = [],
        ToolName = ''ghost__read''\<rparr> # later \<and> length later = 1"
    by (simp add: ghostCall_def)
  from t [where c = exampleClient and args = "()" and w' = 0] n
  have "CallTool exampleClient ''ghost__read'' () 0 = (Inl (ServerNotFound ''ghost''), 0)"
    by blast
  with m g fed n show ?thesis by (intro conjI)
qed

text \<open>
  Claim C9: when, after any number \<open>n\<close> of rounds of tool calls in a turn, the inference
  provider returns a message with no tool call, the inner loop ends without error and
  \<^verbatim>\<open>Run\<close> goes on to ask for the next user input.
\<close>

theorem C9_convergence:
  assumes "userInput \<noteq> []"
    and "firstInference a tools
           (st\<lparr>conversation := conversation st @
                 [\<lparr>Role = ''user'', Content = userInput, ToolCalls = [], ToolName = []\<rparr>]\<rparr>) =
         (Inr message, st1)"
    and "rounds n mi sv a tools (st1\<lparr>conversation := conversation st1 @ [message]\<rparr>) message =
         Some (st', message')"
    and "ToolCalls message' = []"
  shows "toolLoop mi sv a tools (st1\<lparr>conversation := conversation st1 @ [message]\<rparr>) message =
           Some (showContent a st' message', None) \<and>
         chatLoop mi sv a tools st (userInput # inputs) =
           chatLoop mi sv a tools (showContent a st' message') inputs"
proof -
  from assms(4) have "\<not> 0 < length (ToolCalls message')" by simp
  from rounds_toolLoop [OF assms(3) this] assms(1,2) show ?thesis by simp
qed

theorem C9_convergence_witness:
  "''list files'' \<noteq> [] \<and>
   firstInference exampleAgent []
     \<lparr>conversation = [\<lparr>Role = ''user'', Content = ''list files'', ToolCalls = [],
                        ToolName = []\<rparr>],
      out = [], world = 0\<rparr> =
     (Inr \<lparr>Role = ''assistant'', Content = [], ToolCalls = [ghostCall, listCall],
           ToolName = []\<rparr>,
      \<lparr>conversation = take 1 exampleConversation, out = [], world = 0\<rparr>) \<and>
   rounds 1 exampleMarshalIndent exampleSprintv exampleAgent []
     \<lparr>conversation = take 2 exampleConversation, out = [], world = 0\<rparr>
     \<lparr>Role = ''assistant'', Content = [], ToolCalls = [ghostCall, listCall], ToolName = []\<rparr> =
     Some (\<lparr>conversation = exampleConversation, out = butlast (tl exampleOut), world = 1\<rparr>,
           last exampleConversation) \<and>
   ToolCalls (last exampleConversation) = [] \<and>
   chatLoop exampleMarshalIndent exampleSprintv exampleAgent []
     \<lparr>conversation = [], out = [], world = 0\<rparr> [''list files''] =
     Some (\<lparr>conversation = exampleConversation, out = tl exampleOut, world = 1\<rparr>, None)"
proof -
  let ?user = "\<lparr>Role = ''user'', Content = ''list files'', ToolCalls = [],
                 ToolName = []\<rparr> :: unit Message"
  let ?message = "\<lparr>Role = ''assistant'', Content = [], ToolCalls = [ghostCall, listCall],
                    ToolName = []\<rparr>"
  let ?st = "\<lparr>conversation = [], out = [], world = 0\<rparr> :: (unit, nat) runState"
  let ?st1 = "\<lparr>conversation = [?user], out = [], world = 0\<rparr> :: (unit, nat) runState"
  let ?st' = "\<lparr>conversation = exampleConversation, out = butlast (tl exampleOut),
                world = 1\<rparr> :: (unit, nat) runState"
  have i: "''list files'' \<noteq> []" by simp
  have f: "firstInference exampleAgent []
      (?st\<lparr>conversation := conversation ?st @ [?user]\<rparr>) = (Inr ?message, ?st1)"
    by (simp add: firstInference_def runInference_def exampleAgent_def exampleChat_def
        emptyMessage_def)
  have r: "rounds 1 exampleMarshalIndent exampleSprintv exampleAgent []
      (?st1\<lparr>conversation := conversation ?st1 @ [?message]\<rparr>) ?message =
      Some (?st', last exampleConversation)"
    by (simp add: runInference_def exampleAgent_def exampleClient_def fsSession_def
        exampleChat_def execToolCalls_def execToolCall_def showContent_def CallTool_def
        parseToolName_def Split_def HasPrefix_def ghostCall_def listCall_def emptyMessage_def
        formatToolResult_def exampleMarshalIndent_def fsCallTool_def truncateString_def
        exampleConversation_def exampleOut_def)
  have t: "ToolCalls (last exampleConversation) = []"
    by (simp add: exampleConversation_def)
  have s: "showContent exampleAgent ?st' (last exampleConversation) =
      \<lparr>conversation = exampleConversation, out = tl exampleOut, world = 1\<rparr>"
    by (simp add: showContent_def exampleAgent_def exampleConversation_def exampleOut_def)
  from C9_convergence [OF i f r t, of "[]"] i f r t s show ?thesis
    by (simp add: exampleConversation_def)
qed

end
